theory Spec2Isabelle
  imports Complex_Main
begin

section \<open>Python values, exceptions and objects\<close>

text \<open>
  The program is \<^verbatim>\<open>SESSION_AWARE_ORCHESTRATION_SYSTEM.py\<close>. Its values are dynamically
  typed: a client's JSON payload reaches the fields of a \<^verbatim>\<open>Session\<close> through
  \<^verbatim>\<open>setattr\<close>, and a missing field arrives as \<^verbatim>\<open>None\<close>. The values are therefore one
  datatype. A \<^verbatim>\<open>float\<close> that is a number is kept as the real it denotes (no arithmetic
  is done on \<^verbatim>\<open>progress\<close>); the float \<^verbatim>\<open>NaN\<close>, which \<^verbatim>\<open>json.loads\<close> also accepts, is
  not a value of the model, and a \<^verbatim>\<open>str\<close> is one that UTF-8 can encode. A naive
  \<^verbatim>\<open>datetime\<close> is kept as its count of microseconds, a \<^verbatim>\<open>dict\<close> with string keys (the
  only ones JSON has) as an association list.
\<close>

datatype pyval =
    PNone
  | PBool bool
  | PInt int
  | PFloat real
  | PStr string
  | PList "pyval list"
  | PDict "(string \<times> pyval) list"
  | PDatetime int

datatype exn =
    JSONDecodeError
  | ValueError
  | RecursionError
  | UnicodeDecodeError
  | TypeError
  | AttributeError
  | RuntimeError
  | ConnectionClosed
  | ImportError
  | OperationalError

text \<open>
  Keys of the registry \<^verbatim>\<open>active_sessions: Dict[str, Session]\<close>. Python hashes the key:
  \<^verbatim>\<open>None\<close>, numbers and strings are hashable, \<^verbatim>\<open>True == 1 == 1.0\<close> are one key, and a
  list or a dict raises \<^verbatim>\<open>TypeError: unhashable type\<close>.
\<close>

datatype dkey = KNone | KNum real | KStr string | KDatetime int

fun hashable_key :: "pyval \<Rightarrow> dkey option" where
  "hashable_key PNone = Some KNone"
| "hashable_key (PBool b) = Some (KNum (if b then 1 else 0))"
| "hashable_key (PInt i) = Some (KNum (of_int i))"
| "hashable_key (PFloat r) = Some (KNum r)"
| "hashable_key (PStr s) = Some (KStr s)"
| "hashable_key (PList xs) = None"
| "hashable_key (PDict kvs) = None"
| "hashable_key (PDatetime t) = Some (KDatetime t)"

text \<open>
  \<^verbatim>\<open>update_session\<close> reads and writes attributes of a \<^verbatim>\<open>Session\<close> by computed name
  (\<^verbatim>\<open>hasattr\<close>, \<^verbatim>\<open>setattr\<close>), so an instance is modelled as what Python makes it: its
  attribute dictionary. The dataclass constructor fills the seven declared fields.
\<close>

type_synonym session = "string \<rightharpoonup> pyval"

definition Session ::
  "pyval \<Rightarrow> pyval \<Rightarrow> pyval \<Rightarrow> pyval \<Rightarrow> pyval \<Rightarrow> pyval \<Rightarrow> pyval \<Rightarrow> session" where
  "Session sid uid st task pr la res =
     Map.empty(''session_id'' \<mapsto> sid, ''user_id'' \<mapsto> uid, ''status'' \<mapsto> st,
       ''current_task'' \<mapsto> task, ''progress'' \<mapsto> pr, ''last_activity'' \<mapsto> la,
       ''resources_used'' \<mapsto> res)"

text \<open>
  Names that every instance of the dataclass answers to through its class (CPython 3.11:
  \<^verbatim>\<open>dir\<close> of an instance, less the instance's own fields). The fields themselves have no
  defaults, so they are not class attributes.
\<close>

definition class_attributes :: "string list" where
  "class_attributes =
     [''__annotations__'', ''__class__'', ''__dataclass_fields__'', ''__dataclass_params__'',
      ''__delattr__'', ''__dict__'', ''__dir__'', ''__doc__'', ''__eq__'', ''__format__'',
      ''__ge__'', ''__getattribute__'', ''__getstate__'', ''__gt__'', ''__hash__'',
      ''__init__'', ''__init_subclass__'', ''__le__'', ''__lt__'', ''__match_args__'',
      ''__module__'', ''__ne__'', ''__new__'', ''__reduce__'', ''__reduce_ex__'',
      ''__repr__'', ''__setattr__'', ''__sizeof__'', ''__str__'', ''__subclasshook__'',
      ''__weakref__'']"

definition hasattr :: "session \<Rightarrow> string \<Rightarrow> bool" where
  "hasattr obj name = (obj name \<noteq> None \<or> name \<in> set class_attributes)"

text \<open>
  \<^verbatim>\<open>setattr(session, key, value)\<close>. Three names are data descriptors of the class:
  \<^verbatim>\<open>__class__\<close> accepts only a class (no JSON value is one), \<^verbatim>\<open>__dict__\<close> accepts only
  a dict and then replaces the whole attribute dictionary, \<^verbatim>\<open>__weakref__\<close> is read-only.
  Every other name is stored in the instance.
\<close>

definition setattr :: "session \<Rightarrow> string \<Rightarrow> pyval \<Rightarrow> exn + session" where
  "setattr obj name v =
     (if name = ''__class__'' then Inl TypeError
      else if name = ''__dict__'' then
        (case v of PDict d \<Rightarrow> Inr (map_of d) | _ \<Rightarrow> Inl TypeError)
      else if name = ''__weakref__'' then Inl AttributeError
      else Inr (obj(name \<mapsto> v)))"

text \<open>Reading a field, \<^verbatim>\<open>session.name\<close>: \<^verbatim>\<open>AttributeError\<close> when the instance lacks it.\<close>

definition getattr :: "session \<Rightarrow> string \<Rightarrow> exn + pyval" where
  "getattr obj name = (case obj name of None \<Rightarrow> Inl AttributeError | Some v \<Rightarrow> Inr v)"

text \<open>
  What the Python runtime and the SQLite library compute is not in the program; it is a
  parameter of the model: the message \<^verbatim>\<open>str(e)\<close> of an exception, the text
  \<^verbatim>\<open>isoformat()\<close> of a datetime, the value that a column of the \<^verbatim>\<open>sessions\<close> table
  (declared \<^verbatim>\<open>TEXT\<close> or \<^verbatim>\<open>REAL\<close>) gives back for a bound Python value, or the
  exception of the binding, and the rounding of a real to the nearest \<^verbatim>\<open>float\<close>, which
  every division of the program ends with.
\<close>

record runtime =
  str_exn :: "exn \<Rightarrow> string"
  isoformat :: "int \<Rightarrow> string"
  column_text :: "pyval \<Rightarrow> exn + pyval"
  column_real :: "pyval \<Rightarrow> exn + pyval"
  round_double :: "real \<Rightarrow> real"

section \<open>SessionManager\<close>

text \<open>
  Sessions are objects: the registry and every list returned by \<^verbatim>\<open>get_all_sessions\<close> hold
  references to them, and \<^verbatim>\<open>update_session\<close> mutates them in place. The manager is
  therefore a store of objects by address, the next free address, and the registry as an
  association list from key to address in insertion order (the order of a Python dict).
  Each method runs under \<^verbatim>\<open>session_lock\<close>, so it is one atomic step; the clock
  \<^verbatim>\<open>datetime.now()\<close> it reads is the argument \<open>now\<close>. The \<^verbatim>\<open>print\<close> calls change nothing
  and are left out.
\<close>

record session_manager =
  objects :: "nat \<Rightarrow> session"
  next_addr :: nat
  active_sessions :: "(dkey \<times> nat) list"

definition new_manager :: session_manager where
  "new_manager = \<lparr>objects = (\<lambda>a. Map.empty), next_addr = 0, active_sessions = []\<rparr>"

definition register_session ::
  "session_manager \<Rightarrow> pyval \<Rightarrow> pyval \<Rightarrow> int \<Rightarrow> session_manager \<times> (exn + bool)" where
  "register_session sm session_id user_id now =
     (case hashable_key session_id of
        None \<Rightarrow> (sm, Inl TypeError)
      | Some k \<Rightarrow>
          if map_of (active_sessions sm) k = None then
            (sm\<lparr>objects := (objects sm)(next_addr sm :=
                   Session session_id user_id (PStr ''active'') (PStr ''initializing'')
                     (PFloat 0) (PDatetime now) (PDict [])),
                 next_addr := Suc (next_addr sm),
                 active_sessions := active_sessions sm @ [(k, next_addr sm)]\<rparr>,
             Inr True)
          else (sm, Inr False))"

text \<open>
  The loop of \<^verbatim>\<open>update_session\<close> over \<^verbatim>\<open>kwargs.items()\<close>. An exception of \<^verbatim>\<open>setattr\<close>
  leaves the loop with the assignments made so far in place.
\<close>

fun apply_kwargs :: "session \<Rightarrow> (string \<times> pyval) list \<Rightarrow> session \<times> exn option" where
  "apply_kwargs obj [] = (obj, None)"
| "apply_kwargs obj ((key, v) # rest) =
     (if hasattr obj key then
        (case setattr obj key v of
           Inl e \<Rightarrow> (obj, Some e)
         | Inr obj' \<Rightarrow> apply_kwargs obj' rest)
      else apply_kwargs obj rest)"

text \<open>
  \<^verbatim>\<open>def update_session(self, session_id: str, **kwargs)\<close>: a keyword named like one of the
  two positional parameters cannot be bound (\<^verbatim>\<open>TypeError: got multiple values for
  argument\<close>) and the body does not run.
\<close>

definition update_session ::
  "session_manager \<Rightarrow> pyval \<Rightarrow> (string \<times> pyval) list \<Rightarrow> int
     \<Rightarrow> session_manager \<times> (exn + bool)" where
  "update_session sm session_id kwargs now =
     (if ''self'' \<in> set (map fst kwargs) \<or> ''session_id'' \<in> set (map fst kwargs)
      then (sm, Inl TypeError)
      else
        (case hashable_key session_id of
           None \<Rightarrow> (sm, Inl TypeError)
         | Some k \<Rightarrow>
             (case map_of (active_sessions sm) k of
                None \<Rightarrow> (sm, Inr False)
              | Some a \<Rightarrow>
                  (case apply_kwargs (objects sm a) kwargs of
                     (obj, Some e) \<Rightarrow> (sm\<lparr>objects := (objects sm)(a := obj)\<rparr>, Inl e)
                   | (obj, None) \<Rightarrow>
                       (sm\<lparr>objects := (objects sm)(a :=
                              obj(''last_activity'' \<mapsto> PDatetime now))\<rparr>,
                        Inr True)))))"

definition get_session_status :: "session_manager \<Rightarrow> pyval \<Rightarrow> exn + nat option" where
  "get_session_status sm session_id =
     (case hashable_key session_id of
        None \<Rightarrow> Inl TypeError
      | Some k \<Rightarrow> Inr (map_of (active_sessions sm) k))"

definition get_all_sessions :: "session_manager \<Rightarrow> nat list" where
  "get_all_sessions sm = map snd (active_sessions sm)"

text \<open>
  \<^verbatim>\<open>(current_time - session.last_activity).total_seconds() / 60\<close>. The difference is an
  exact count of microseconds; \<^verbatim>\<open>total_seconds()\<close> is that count divided by \<open>10\<^sup>6\<close> and
  rounded to a float, and the division by 60 rounds again. Subtracting anything but a
  datetime from a datetime is a \<^verbatim>\<open>TypeError\<close>.
\<close>

definition time_diff :: "runtime \<Rightarrow> session \<Rightarrow> int \<Rightarrow> exn + real" where
  "time_diff rt obj current_time =
     (case getattr obj ''last_activity'' of
        Inl e \<Rightarrow> Inl e
      | Inr (PDatetime t) \<Rightarrow>
          Inr (round_double rt
                 (round_double rt (real_of_int (current_time - t) / 1000000) / 60))
      | Inr _ \<Rightarrow> Inl TypeError)"

text \<open>
  The first loop of \<^verbatim>\<open>cleanup_inactive_sessions\<close>: the keys whose session is too old. The
  comparison of the float with the integer timeout is exact.
\<close>

fun inactive_sessions ::
  "runtime \<Rightarrow> (nat \<Rightarrow> session) \<Rightarrow> (dkey \<times> nat) list \<Rightarrow> int \<Rightarrow> int
     \<Rightarrow> exn + dkey list" where
  "inactive_sessions rt objs [] current_time timeout_minutes = Inr []"
| "inactive_sessions rt objs ((k, a) # rest) current_time timeout_minutes =
     (case time_diff rt (objs a) current_time of
        Inl e \<Rightarrow> Inl e
      | Inr d \<Rightarrow>
          (case inactive_sessions rt objs rest current_time timeout_minutes of
             Inl e \<Rightarrow> Inl e
           | Inr ks \<Rightarrow> Inr (if d > real_of_int timeout_minutes then k # ks else ks)))"

text \<open>\<^verbatim>\<open>del self.active_sessions[session_id]\<close>, and the second loop.\<close>

definition dict_del :: "dkey \<Rightarrow> (dkey \<times> nat) list \<Rightarrow> (dkey \<times> nat) list" where
  "dict_del k reg = filter (\<lambda>(k', a). k' \<noteq> k) reg"

text \<open>
  The method has no \<^verbatim>\<open>return\<close> statement: when it completes, its value is \<^verbatim>\<open>None\<close>.
\<close>

definition cleanup_inactive_sessions ::
  "runtime \<Rightarrow> session_manager \<Rightarrow> int \<Rightarrow> int \<Rightarrow> session_manager \<times> (exn + pyval)" where
  "cleanup_inactive_sessions rt sm now timeout_minutes =
     (case inactive_sessions rt (objects sm) (active_sessions sm) now timeout_minutes of
        Inl e \<Rightarrow> (sm, Inl e)
      | Inr ks \<Rightarrow> (sm\<lparr>active_sessions := fold dict_del ks (active_sessions sm)\<rparr>, Inr PNone))"

section \<open>SessionWebSocketServer\<close>

text \<open>
  JSON text is represented by the document it spells, and a frame on a connection by
  what \<^verbatim>\<open>json.loads\<close> makes of it: the document, or the exception it raises. That is
  \<^verbatim>\<open>JSONDecodeError\<close> for text that is not JSON, and also \<^verbatim>\<open>ValueError\<close> (an integer
  literal beyond the digit limit), \<^verbatim>\<open>RecursionError\<close> (nesting too deep) or
  \<^verbatim>\<open>UnicodeDecodeError\<close> (a binary frame that is not UTF-8). \<^verbatim>\<open>json.dumps\<close> gives the
  text of a document, and raises \<^verbatim>\<open>TypeError\<close> on a value JSON has no form for.
\<close>

datatype frame = Rejected exn | Text pyval

fun json_serializable :: "pyval \<Rightarrow> bool" where
  "json_serializable PNone = True"
| "json_serializable (PBool b) = True"
| "json_serializable (PInt i) = True"
| "json_serializable (PFloat r) = True"
| "json_serializable (PStr s) = True"
| "json_serializable (PList xs) = (\<forall>x \<in> set xs. json_serializable x)"
| "json_serializable (PDict kvs) = (\<forall>kv \<in> set kvs. json_serializable (snd kv))"
| "json_serializable (PDatetime t) = False"

definition json_loads :: "frame \<Rightarrow> exn + pyval" where
  "json_loads message = (case message of Rejected e \<Rightarrow> Inl e | Text doc \<Rightarrow> Inr doc)"

definition json_dumps :: "pyval \<Rightarrow> exn + pyval" where
  "json_dumps doc = (if json_serializable doc then Inr doc else Inl TypeError)"

definition bind_exn :: "exn + 'a \<Rightarrow> ('a \<Rightarrow> exn + 'b) \<Rightarrow> exn + 'b" where
  "bind_exn r f = (case r of Inl e \<Rightarrow> Inl e | Inr x \<Rightarrow> f x)"

text \<open>\<^verbatim>\<open>data.get(key, default)\<close> on a dict.\<close>

definition dict_get :: "(string \<times> pyval) list \<Rightarrow> string \<Rightarrow> pyval \<Rightarrow> pyval" where
  "dict_get d key dflt = (case map_of d key of None \<Rightarrow> dflt | Some v \<Rightarrow> v)"

text \<open>
  A client connection, with whether it is open when a \<^verbatim>\<open>send\<close> reaches it. \<^verbatim>\<open>send\<close> on
  a closed connection raises \<^verbatim>\<open>ConnectionClosed\<close> (the library turns every failure of the
  socket into it); on an open one the frame is delivered. The result lists the frames
  delivered.
\<close>

record websocket =
  ws_id :: nat
  ws_open :: bool

definition ws_send :: "websocket \<Rightarrow> frame \<Rightarrow> exn + frame list" where
  "ws_send ws f = (if ws_open ws then Inr [f] else Inl ConnectionClosed)"

text \<open>\<^verbatim>\<open>await websocket.send(json.dumps(doc))\<close>\<close>

definition send_json :: "websocket \<Rightarrow> pyval \<Rightarrow> exn + frame list" where
  "send_json ws doc = bind_exn (json_dumps doc) (\<lambda>text. ws_send ws (Text text))"

definition registration_response :: "bool \<Rightarrow> pyval \<Rightarrow> pyval" where
  "registration_response success session_id =
     PDict [(''type'', PStr ''registration_response''), (''success'', PBool success),
            (''session_id'', session_id)]"

definition update_response :: "bool \<Rightarrow> pyval \<Rightarrow> pyval" where
  "update_response success session_id =
     PDict [(''type'', PStr ''update_response''), (''success'', PBool success),
            (''session_id'', session_id)]"

definition sessions_data :: "pyval list \<Rightarrow> pyval" where
  "sessions_data session_data =
     PDict [(''type'', PStr ''sessions_data''), (''sessions'', PList session_data)]"

definition error_reply :: "string \<Rightarrow> pyval" where
  "error_reply message = PDict [(''type'', PStr ''error''), (''message'', PStr message)]"

text \<open>\<^verbatim>\<open>session.last_activity.isoformat()\<close>: only a datetime has the method.\<close>

definition py_isoformat :: "runtime \<Rightarrow> pyval \<Rightarrow> exn + pyval" where
  "py_isoformat rt v =
     (case v of PDatetime t \<Rightarrow> Inr (PStr (isoformat rt t)) | _ \<Rightarrow> Inl AttributeError)"

text \<open>The dict that the \<^verbatim>\<open>get_sessions\<close> branch builds for one session, and its loop.\<close>

definition session_entry :: "runtime \<Rightarrow> session \<Rightarrow> exn + pyval" where
  "session_entry rt obj =
     bind_exn (getattr obj ''session_id'') (\<lambda>sid.
     bind_exn (getattr obj ''user_id'') (\<lambda>uid.
     bind_exn (getattr obj ''status'') (\<lambda>st.
     bind_exn (getattr obj ''current_task'') (\<lambda>task.
     bind_exn (getattr obj ''progress'') (\<lambda>pr.
     bind_exn (bind_exn (getattr obj ''last_activity'') (py_isoformat rt)) (\<lambda>la.
     bind_exn (getattr obj ''resources_used'') (\<lambda>res.
       Inr (PDict [(''session_id'', sid), (''user_id'', uid), (''status'', st),
                   (''current_task'', task), (''progress'', pr), (''last_activity'', la),
                   (''resources_used'', res)]))))))))"

fun session_entries :: "runtime \<Rightarrow> session list \<Rightarrow> exn + pyval list" where
  "session_entries rt [] = Inr []"
| "session_entries rt (obj # rest) =
     (case session_entry rt obj of
        Inl e \<Rightarrow> Inl e
      | Inr entry \<Rightarrow>
          (case session_entries rt rest of
             Inl e \<Rightarrow> Inl e
           | Inr entries \<Rightarrow> Inr (entry # entries)))"

text \<open>
  The \<^verbatim>\<open>try\<close> block of \<^verbatim>\<open>handle_message\<close>. A payload that is not a dict has no
  \<^verbatim>\<open>get\<close> (\<^verbatim>\<open>AttributeError\<close>); \<^verbatim>\<open>**updates\<close> needs a mapping (\<^verbatim>\<open>TypeError\<close>). The
  \<^verbatim>\<open>if\<close>/\<^verbatim>\<open>elif\<close> chain has no \<^verbatim>\<open>else\<close>: any other command sends nothing.
\<close>

definition handle_command ::
  "runtime \<Rightarrow> session_manager \<Rightarrow> websocket \<Rightarrow> frame \<Rightarrow> int
     \<Rightarrow> session_manager \<times> (exn + frame list)" where
  "handle_command rt sm ws message now =
     (case json_loads message of
        Inl e \<Rightarrow> (sm, Inl e)
      | Inr data \<Rightarrow>
          (case data of
             PDict d \<Rightarrow>
               (let command = dict_get d ''command'' PNone in
                if command = PStr ''register_session'' then
                  (let session_id = dict_get d ''session_id'' PNone;
                       user_id = dict_get d ''user_id'' PNone
                   in case register_session sm session_id user_id now of
                        (sm', Inl e) \<Rightarrow> (sm', Inl e)
                      | (sm', Inr success) \<Rightarrow>
                          (sm', send_json ws (registration_response success session_id)))
                else if command = PStr ''update_session'' then
                  (let session_id = dict_get d ''session_id'' PNone;
                       updates = dict_get d ''updates'' (PDict [])
                   in case updates of
                        PDict kwargs \<Rightarrow>
                          (case update_session sm session_id kwargs now of
                             (sm', Inl e) \<Rightarrow> (sm', Inl e)
                           | (sm', Inr success) \<Rightarrow>
                               (sm', send_json ws (update_response success session_id)))
                      | _ \<Rightarrow> (sm, Inl TypeError))
                else if command = PStr ''get_sessions'' then
                  (sm, bind_exn (session_entries rt (map (objects sm) (get_all_sessions sm)))
                         (\<lambda>session_data. send_json ws (sessions_data session_data)))
                else (sm, Inr []))
           | _ \<Rightarrow> (sm, Inl AttributeError)))"

text \<open>
  \<^verbatim>\<open>handle_message\<close> with its two handlers. The result is the manager, the frames
  delivered to \<^verbatim>\<open>websocket\<close> (the method sends to no other connection), and the
  exception that leaves the method, if any: one raised by the \<^verbatim>\<open>send\<close> of a handler is
  not caught again. The loop of \<^verbatim>\<open>register_client\<close> goes on to the next message exactly
  when none leaves.
\<close>

definition handle_message ::
  "runtime \<Rightarrow> session_manager \<Rightarrow> websocket \<Rightarrow> frame \<Rightarrow> int
     \<Rightarrow> session_manager \<times> frame list \<times> exn option" where
  "handle_message rt sm ws message now =
     (case handle_command rt sm ws message now of
        (sm', Inr sent) \<Rightarrow> (sm', sent, None)
      | (sm', Inl e) \<Rightarrow>
          (case send_json ws (error_reply
                  (if e = JSONDecodeError then ''Invalid JSON format'' else str_exn rt e)) of
             Inr sent \<Rightarrow> (sm', sent, None)
           | Inl e' \<Rightarrow> (sm', [], Some e')))"

text \<open>
  \<^verbatim>\<open>broadcast_update\<close> iterates the set \<^verbatim>\<open>self.clients\<close> itself and waits in every
  \<^verbatim>\<open>send\<close>. While it waits, the task of another connection may run: \<^verbatim>\<open>register_client\<close>
  adds the connection it was started for, or its \<^verbatim>\<open>finally\<close> removes the connection that
  ended (a \<^verbatim>\<open>KeyError\<close> of that \<^verbatim>\<open>remove\<close> is the other task's). The schedule gives, for
  each \<^verbatim>\<open>send\<close> of the loop in turn, the one change another task makes meanwhile, if any.
\<close>

datatype event = Connects websocket | Disconnects websocket

fun other_task :: "event option \<Rightarrow> websocket list \<Rightarrow> websocket list" where
  "other_task None clients = clients"
| "other_task (Some (Connects ws)) clients =
     (if ws \<in> set clients then clients else clients @ [ws])"
| "other_task (Some (Disconnects ws)) clients = filter (\<lambda>c. c \<noteq> ws) clients"

text \<open>
  The loop, over the elements still to visit in the order the set is iterated. The
  iterator of a Python set raises \<^verbatim>\<open>RuntimeError: Set changed size during iteration\<close>
  when it is asked for the next element (also for the end of the iteration) and the
  set has not the size it had when the loop began. Only \<^verbatim>\<open>ConnectionClosed\<close> is caught.
  The result: the set, the deliveries (connection, frame), the clients found closed,
  and the exception that leaves the loop, if any.
\<close>

fun send_to_all ::
  "websocket list \<Rightarrow> nat \<Rightarrow> websocket list \<Rightarrow> event option list \<Rightarrow> frame
     \<Rightarrow> (nat \<times> frame) list \<Rightarrow> websocket list
     \<Rightarrow> websocket list \<times> (nat \<times> frame) list \<times> websocket list \<times> exn option" where
  "send_to_all clients used [] schedule f delivered disconnected =
     (if length clients \<noteq> used then (clients, delivered, disconnected, Some RuntimeError)
      else (clients, delivered, disconnected, None))"
| "send_to_all clients used (client # rest) schedule f delivered disconnected =
     (if length clients \<noteq> used then (clients, delivered, disconnected, Some RuntimeError)
      else
        (let clients' = other_task (case schedule of [] \<Rightarrow> None | ev # later \<Rightarrow> ev) clients
         in case ws_send client f of
              Inr sent \<Rightarrow>
                send_to_all clients' used rest (tl schedule) f
                  (delivered @ map (Pair (ws_id client)) sent) disconnected
            | Inl e \<Rightarrow>
                if e = ConnectionClosed
                then send_to_all clients' used rest (tl schedule) f delivered
                       (disconnected @ [client])
                else (clients', delivered, disconnected, Some e)))"

text \<open>
  The result: the client set afterwards, the deliveries, and the exception that leaves
  the method, if any. After an exception the closed clients are not removed.
\<close>

definition broadcast_update ::
  "websocket list \<Rightarrow> pyval \<Rightarrow> event option list
     \<Rightarrow> websocket list \<times> (nat \<times> frame) list \<times> exn option" where
  "broadcast_update clients message schedule =
     (if clients = [] then (clients, [], None)
      else
        (case json_dumps message of
           Inl e \<Rightarrow> (clients, [], Some e)
         | Inr message_str \<Rightarrow>
             (case send_to_all clients (length clients) clients schedule (Text message_str)
                     [] [] of
                (clients', delivered, disconnected, Some e) \<Rightarrow> (clients', delivered, Some e)
              | (clients', delivered, disconnected, None) \<Rightarrow>
                  (filter (\<lambda>c. c \<notin> set disconnected) clients', delivered, None))))"

section \<open>SessionDatabase\<close>

text \<open>
  What \<^verbatim>\<open>import sqlite3\<close> and the calls on the connection meet: the module is missing
  (\<^verbatim>\<open>ImportError\<close>), the storage fails (\<^verbatim>\<open>sqlite3.OperationalError\<close> from \<^verbatim>\<open>connect\<close>,
  \<^verbatim>\<open>execute\<close> or \<^verbatim>\<open>commit\<close>), or it works.
\<close>

datatype sqlite3 = NoModule | Failing | Working

text \<open>
  A row of the table \<^verbatim>\<open>sessions\<close>. The table is written by \<^verbatim>\<open>save_session\<close> only, so
  its two timestamp columns hold \<^verbatim>\<open>isoformat()\<close> text and its last column
  \<^verbatim>\<open>json.dumps\<close> text; the row keeps the datetime and the document that the text spells,
  which \<^verbatim>\<open>datetime.fromisoformat\<close> and \<^verbatim>\<open>json.loads\<close> give back (that text is never
  empty, so the \<^verbatim>\<open>else {}\<close> of \<^verbatim>\<open>load_sessions\<close> is not taken).
\<close>

record row =
  col_session_id :: pyval
  col_user_id :: pyval
  col_status :: pyval
  col_current_task :: pyval
  col_progress :: pyval
  col_created_at :: int
  col_last_activity :: int
  col_resources_used :: pyval

text \<open>
  \<^verbatim>\<open>INSERT OR REPLACE\<close> on the primary key \<^verbatim>\<open>session_id\<close>: a row with the same key is
  deleted and the new row is added last; \<^verbatim>\<open>NULL\<close> keys never conflict.
\<close>

definition insert_or_replace :: "row \<Rightarrow> row list \<Rightarrow> row list" where
  "insert_or_replace r table =
     filter (\<lambda>r'. col_session_id r' = PNone \<or> col_session_id r' \<noteq> col_session_id r) table
       @ [r]"

definition datetime_value :: "pyval \<Rightarrow> exn + int" where
  "datetime_value v = (case v of PDatetime t \<Rightarrow> Inr t | _ \<Rightarrow> Inl AttributeError)"

definition save_session ::
  "runtime \<Rightarrow> sqlite3 \<Rightarrow> row list \<Rightarrow> session \<Rightarrow> int \<Rightarrow> exn + row list" where
  "save_session rt env table obj now =
     (case env of
        NoModule \<Rightarrow> Inr table
      | Failing \<Rightarrow> Inl OperationalError
      | Working \<Rightarrow>
          bind_exn (getattr obj ''session_id'') (\<lambda>sid.
          bind_exn (getattr obj ''user_id'') (\<lambda>uid.
          bind_exn (getattr obj ''status'') (\<lambda>st.
          bind_exn (getattr obj ''current_task'') (\<lambda>task.
          bind_exn (getattr obj ''progress'') (\<lambda>pr.
          bind_exn (bind_exn (getattr obj ''last_activity'') datetime_value) (\<lambda>la.
          bind_exn (bind_exn (getattr obj ''resources_used'') json_dumps) (\<lambda>res.
          bind_exn (column_text rt sid) (\<lambda>c0.
          bind_exn (column_text rt uid) (\<lambda>c1.
          bind_exn (column_text rt st) (\<lambda>c2.
          bind_exn (column_text rt task) (\<lambda>c3.
          bind_exn (column_real rt pr) (\<lambda>c4.
            Inr (insert_or_replace
                   \<lparr>col_session_id = c0, col_user_id = c1, col_status = c2,
                    col_current_task = c3, col_progress = c4, col_created_at = now,
                    col_last_activity = la,
                    col_resources_used = res\<rparr>
                   table))))))))))))))"

definition session_of_row :: "row \<Rightarrow> session" where
  "session_of_row r =
     Session (col_session_id r) (col_user_id r) (col_status r) (col_current_task r)
       (col_progress r) (PDatetime (col_last_activity r)) (col_resources_used r)"

definition load_sessions :: "sqlite3 \<Rightarrow> row list \<Rightarrow> exn + session list" where
  "load_sessions env table =
     (case env of
        NoModule \<Rightarrow> Inr []
      | Failing \<Rightarrow> Inl OperationalError
      | Working \<Rightarrow> Inr (map session_of_row table))"

section \<open>SessionOrchestrator\<close>

text \<open>
  \<^verbatim>\<open>shutdown\<close>: \<^verbatim>\<open>save_session\<close> for every session of \<^verbatim>\<open>get_all_sessions()\<close>, in order;
  an exception ends the loop.
\<close>

fun save_all ::
  "runtime \<Rightarrow> sqlite3 \<Rightarrow> row list \<Rightarrow> session list \<Rightarrow> int \<Rightarrow> exn + row list" where
  "save_all rt env table [] now = Inr table"
| "save_all rt env table (obj # rest) now =
     (case save_session rt env table obj now of
        Inl e \<Rightarrow> Inl e
      | Inr table' \<Rightarrow> save_all rt env table' rest now)"

definition shutdown ::
  "runtime \<Rightarrow> sqlite3 \<Rightarrow> row list \<Rightarrow> session_manager \<Rightarrow> int \<Rightarrow> exn + row list" where
  "shutdown rt env table sm now =
     save_all rt env table (map (objects sm) (get_all_sessions sm)) now"

section \<open>Vocabulary of the properties\<close>

text \<open>
  A sequence of calls of \<^verbatim>\<open>update_session\<close>, each with its id, its keywords and the clock
  reading it meets; what the calls return or raise is dropped.
\<close>

fun update_calls ::
  "session_manager \<Rightarrow> (pyval \<times> (string \<times> pyval) list \<times> int) list \<Rightarrow> session_manager" where
  "update_calls sm [] = sm"
| "update_calls sm ((session_id, kwargs, now) # calls) =
     update_calls (fst (update_session sm session_id kwargs now)) calls"


text \<open>
  Calls on the store after a list was returned: \<^verbatim>\<open>register_session\<close>, \<^verbatim>\<open>update_session\<close>
  and \<^verbatim>\<open>cleanup_inactive_sessions\<close> with their arguments and the clock reading they meet
  (the class has no other method that changes the registry). What they return or raise
  is dropped.
\<close>

datatype store_op =
    Register pyval pyval int
  | Update pyval "(string \<times> pyval) list" int
  | SweepIdle int int

fun store_call :: "runtime \<Rightarrow> session_manager \<Rightarrow> store_op \<Rightarrow> session_manager" where
  "store_call rt sm (Register session_id user_id now) =
     fst (register_session sm session_id user_id now)"
| "store_call rt sm (Update session_id kwargs now) =
     fst (update_session sm session_id kwargs now)"
| "store_call rt sm (SweepIdle now timeout_minutes) =
     fst (cleanup_inactive_sessions rt sm now timeout_minutes)"

fun store_calls :: "runtime \<Rightarrow> session_manager \<Rightarrow> store_op list \<Rightarrow> session_manager" where
  "store_calls rt sm [] = sm"
| "store_calls rt sm (c # calls) = store_calls rt (store_call rt sm c) calls"

text \<open>
  A call names a record when it is an \<^verbatim>\<open>update_session\<close> whose id is, at that moment,
  registered to the record; a sequence of calls leaves a record alone when none of them
  names it in the state it meets.
\<close>

fun names_record :: "session_manager \<Rightarrow> store_op \<Rightarrow> nat \<Rightarrow> bool" where
  "names_record sm (Update session_id kwargs now) a =
     (case hashable_key session_id of
        None \<Rightarrow> False
      | Some k \<Rightarrow> map_of (active_sessions sm) k = Some a)"
| "names_record sm c a = False"

fun leave_alone :: "runtime \<Rightarrow> session_manager \<Rightarrow> store_op list \<Rightarrow> nat \<Rightarrow> bool" where
  "leave_alone rt sm [] a = True"
| "leave_alone rt sm (c # calls) a =
     (\<not> names_record sm c a \<and> leave_alone rt (store_call rt sm c) calls a)"

text \<open>Every reference that the registry holds is to an object that was allocated.\<close>

definition allocated_refs :: "session_manager \<Rightarrow> bool" where
  "allocated_refs sm = (\<forall>a \<in> set (get_all_sessions sm). a < next_addr sm)"

text \<open>
  A session whose fields hold values of the types the dataclass declares that the model
  has: strings (that UTF-8 can encode), a float that is a number (not \<^verbatim>\<open>NaN\<close>, which
  SQLite stores as \<^verbatim>\<open>NULL\<close>), a datetime, and a dict that \<^verbatim>\<open>json.dumps\<close> can spell. And
  the row that \<^verbatim>\<open>save_session\<close> writes for it when the columns give those values back.
\<close>

definition typed_session :: "session \<Rightarrow> bool" where
  "typed_session obj =
     ((case obj ''session_id'' of Some (PStr s) \<Rightarrow> True | _ \<Rightarrow> False) \<and>
      (case obj ''user_id'' of Some (PStr s) \<Rightarrow> True | _ \<Rightarrow> False) \<and>
      (case obj ''status'' of Some (PStr s) \<Rightarrow> True | _ \<Rightarrow> False) \<and>
      (case obj ''current_task'' of Some (PStr s) \<Rightarrow> True | _ \<Rightarrow> False) \<and>
      (case obj ''progress'' of Some (PFloat x) \<Rightarrow> True | _ \<Rightarrow> False) \<and>
      (case obj ''last_activity'' of Some (PDatetime t) \<Rightarrow> True | _ \<Rightarrow> False) \<and>
      (case obj ''resources_used'' of Some (PDict d) \<Rightarrow> json_serializable (PDict d)
         | _ \<Rightarrow> False))"

definition field_value :: "session \<Rightarrow> string \<Rightarrow> pyval" where
  "field_value obj name = (case obj name of Some v \<Rightarrow> v | None \<Rightarrow> PNone)"

definition stored_row :: "session \<Rightarrow> int \<Rightarrow> row" where
  "stored_row obj now =
     \<lparr>col_session_id = field_value obj ''session_id'',
      col_user_id = field_value obj ''user_id'',
      col_status = field_value obj ''status'',
      col_current_task = field_value obj ''current_task'',
      col_progress = field_value obj ''progress'',
      col_created_at = now,
      col_last_activity = (case obj ''last_activity'' of Some (PDatetime t) \<Rightarrow> t | _ \<Rightarrow> 0),
      col_resources_used = field_value obj ''resources_used''\<rparr>"

section \<open>Fixtures of the closed examples\<close>

text \<open>
  A runtime whose columns give every bound value back unchanged and whose divisions are
  exact, a manager in which the
  session \<^verbatim>\<open>s1\<close> of user \<^verbatim>\<open>u1\<close> was registered at time 1000 (microseconds), one in
  which \<^verbatim>\<open>s2\<close> was then registered a minute later, and an open and a closed connection.
\<close>

definition example_runtime :: runtime where
  "example_runtime =
     \<lparr>str_exn = (\<lambda>e. ''exception''), isoformat = (\<lambda>t. ''1970-01-01T00:00:00''),
      column_text = Inr, column_real = Inr, round_double = (\<lambda>x. x)\<rparr>"

definition one_session :: session_manager where
  "one_session = fst (register_session new_manager (PStr ''s1'') (PStr ''u1'') 1000)"

definition two_sessions :: session_manager where
  "two_sessions = fst (register_session one_session (PStr ''s2'') (PStr ''u2'') 60001000)"

text \<open>
  The manager in which an update of \<^verbatim>\<open>s1\<close> set \<^verbatim>\<open>last_activity\<close> to a string and was then
  ended by the exception of its next keyword, before the clock was read.
\<close>

definition unstamped_session :: session_manager where
  "unstamped_session =
     fst (update_session one_session (PStr ''s1'')
            [(''last_activity'', PStr ''never''), (''__class__'', PInt 1)] 2000)"


text \<open>
  The row that an earlier run saved for a session \<^verbatim>\<open>s0\<close>, which the registry no longer
  holds (it was evicted, or the row is from another run).
\<close>

definition stale_row :: row where
  "stale_row =
     \<lparr>col_session_id = PStr ''s0'', col_user_id = PStr ''u0'', col_status = PStr ''active'',
      col_current_task = PStr ''initializing'', col_progress = PFloat 0, col_created_at = 500,
      col_last_activity = 100, col_resources_used = PDict []\<rparr>"

definition open_client :: "nat \<Rightarrow> websocket" where
  "open_client n = \<lparr>ws_id = n, ws_open = True\<rparr>"

definition closed_client :: "nat \<Rightarrow> websocket" where
  "closed_client n = \<lparr>ws_id = n, ws_open = False\<rparr>"

section \<open>Session Store: registration\<close>

lemma one_session_eq:
  "one_session =
     \<lparr>objects = (\<lambda>a. Map.empty)(0 :=
        Session (PStr ''s1'') (PStr ''u1'') (PStr ''active'') (PStr ''initializing'')
          (PFloat 0) (PDatetime 1000) (PDict [])),
      next_addr = Suc 0, active_sessions = [(KStr ''s1'', 0)]\<rparr>"
  by (simp add: one_session_def register_session_def new_manager_def)







section \<open>Session Store: update\<close>

lemma hasattr_upd: "hasattr (obj(key \<mapsto> v)) name = (name = key \<or> hasattr obj name)"
  by (simp add: hasattr_def)

lemma setattr_plain:
  "name \<notin> {''__class__'', ''__dict__'', ''__weakref__''} \<Longrightarrow>
     setattr obj name v = Inr (obj(name \<mapsto> v))"
  by (simp add: setattr_def)

text \<open>
  Without the three descriptor names, the loop assigns every keyword that names an
  attribute of the object and skips the others.
\<close>

lemma apply_kwargs_plain:
  assumes "\<forall>name \<in> set (map fst kwargs). name \<notin> {''__class__'', ''__dict__'', ''__weakref__''}"
    and "distinct (map fst kwargs)"
  shows "apply_kwargs obj kwargs =
           ((\<lambda>name. if name \<in> set (map fst kwargs) \<and> hasattr obj name
                     then map_of kwargs name else obj name), None)"
  using assms
proof (induction kwargs arbitrary: obj)
  case Nil
  then show ?case by simp
next
  case (Cons kv rest)
  obtain key v where kv: "kv = (key, v)" by (cases kv)
  from Cons.prems kv have plain: "key \<notin> {''__class__'', ''__dict__'', ''__weakref__''}"
    and rest_plain:
      "\<forall>name \<in> set (map fst rest). name \<notin> {''__class__'', ''__dict__'', ''__weakref__''}"
    and fresh: "key \<notin> set (map fst rest)" and dist: "distinct (map fst rest)"
    by auto
  show ?case
  proof (cases "hasattr obj key")
    case True
    have "apply_kwargs obj (kv # rest) = apply_kwargs (obj(key \<mapsto> v)) rest"
      using True kv setattr_plain [OF plain] by simp
    also have "\<dots> =
        ((\<lambda>name. if name \<in> set (map fst rest) \<and> hasattr (obj(key \<mapsto> v)) name
                  then map_of rest name else (obj(key \<mapsto> v)) name), None)"
      by (rule Cons.IH [OF rest_plain dist])
    also have "\<dots> =
        ((\<lambda>name. if name \<in> set (map fst (kv # rest)) \<and> hasattr obj name
                  then map_of (kv # rest) name else obj name), None)"
      using True fresh kv by (auto simp: fun_eq_iff hasattr_upd)
    finally show ?thesis .
  next
    case False
    have "apply_kwargs obj (kv # rest) = apply_kwargs obj rest"
      using False kv by simp
    also have "\<dots> =
        ((\<lambda>name. if name \<in> set (map fst rest) \<and> hasattr obj name
                  then map_of rest name else obj name), None)"
      by (rule Cons.IH [OF rest_plain dist])
    also have "\<dots> =
        ((\<lambda>name. if name \<in> set (map fst (kv # rest)) \<and> hasattr obj name
                  then map_of (kv # rest) name else obj name), None)"
      using False fresh kv by (auto simp: fun_eq_iff)
    finally show ?thesis .
  qed
qed

text \<open>
  C2, as the code has it. The keywords are those of a Python call: distinct, and none is
  \<^verbatim>\<open>self\<close> or \<^verbatim>\<open>session_id\<close>. When the id is registered and no keyword is one of the
  descriptor names \<^verbatim>\<open>__class__\<close>, \<^verbatim>\<open>__dict__\<close>, \<^verbatim>\<open>__weakref__\<close>, the call returns
  \<^verbatim>\<open>True\<close>; every keyword that names an attribute of the record is overwritten with the
  given value, every other keyword is ignored, no other attribute, no other record and
  no registry entry changes, and \<^verbatim>\<open>last_activity\<close> is the clock reading of the call,
  whatever it was before and whatever the keywords gave for it. When the id is not
  registered, the call returns \<^verbatim>\<open>False\<close> and the manager is as before.
\<close>

theorem update_session_spec:
  assumes key: "hashable_key session_id = Some k"
    and bound: "''self'' \<notin> set (map fst kwargs)" "''session_id'' \<notin> set (map fst kwargs)"
  shows "(\<forall>a. map_of (active_sessions sm) k = Some a \<and> distinct (map fst kwargs) \<and>
              (\<forall>name \<in> set (map fst kwargs).
                 name \<notin> {''__class__'', ''__dict__'', ''__weakref__''}) \<longrightarrow>
           (\<exists>sm'. update_session sm session_id kwargs now = (sm', Inr True) \<and>
              active_sessions sm' = active_sessions sm \<and>
              (\<forall>b. b \<noteq> a \<longrightarrow> objects sm' b = objects sm b) \<and>
              objects sm' a ''last_activity'' = Some (PDatetime now) \<and>
              (\<forall>name v. (name, v) \<in> set kwargs \<and> hasattr (objects sm a) name \<and>
                  name \<noteq> ''last_activity'' \<longrightarrow> objects sm' a name = Some v) \<and>
              (\<forall>name. (name \<notin> set (map fst kwargs) \<or> \<not> hasattr (objects sm a) name) \<and>
                  name \<noteq> ''last_activity'' \<longrightarrow> objects sm' a name = objects sm a name))) \<and>
         (map_of (active_sessions sm) k = None \<longrightarrow>
            update_session sm session_id kwargs now = (sm, Inr False))"
proof (intro conjI allI impI)
  fix a
  assume h: "map_of (active_sessions sm) k = Some a \<and> distinct (map fst kwargs) \<and>
              (\<forall>name \<in> set (map fst kwargs).
                 name \<notin> {''__class__'', ''__dict__'', ''__weakref__''})"
  let ?obj = "(\<lambda>name. if name \<in> set (map fst kwargs) \<and> hasattr (objects sm a) name
                     then map_of kwargs name else objects sm a name)"
  let ?sm' = "sm\<lparr>objects := (objects sm)(a := ?obj(''last_activity'' \<mapsto> PDatetime now))\<rparr>"
  from h have loop: "apply_kwargs (objects sm a) kwargs = (?obj, None)"
    using apply_kwargs_plain by blast
  have res: "update_session sm session_id kwargs now = (?sm', Inr True)"
    using key bound h loop by (simp add: update_session_def)
  have given: "\<And>name v. (name, v) \<in> set kwargs \<Longrightarrow> map_of kwargs name = Some v"
    using h by simp
  show "\<exists>sm'. update_session sm session_id kwargs now = (sm', Inr True) \<and>
              active_sessions sm' = active_sessions sm \<and>
              (\<forall>b. b \<noteq> a \<longrightarrow> objects sm' b = objects sm b) \<and>
              objects sm' a ''last_activity'' = Some (PDatetime now) \<and>
              (\<forall>name v. (name, v) \<in> set kwargs \<and> hasattr (objects sm a) name \<and>
                  name \<noteq> ''last_activity'' \<longrightarrow> objects sm' a name = Some v) \<and>
              (\<forall>name. (name \<notin> set (map fst kwargs) \<or> \<not> hasattr (objects sm a) name) \<and>
                  name \<noteq> ''last_activity'' \<longrightarrow> objects sm' a name = objects sm a name)"
  proof (intro exI [of _ ?sm'] conjI allI impI)
    show "update_session sm session_id kwargs now = (?sm', Inr True)"
      by (rule res)
    show "active_sessions ?sm' = active_sessions sm"
      by simp
    show "objects ?sm' b = objects sm b" if "b \<noteq> a" for b
      using that by simp
    show "objects ?sm' a ''last_activity'' = Some (PDatetime now)"
      by simp
    show "objects ?sm' a name = Some v"
      if "(name, v) \<in> set kwargs \<and> hasattr (objects sm a) name \<and> name \<noteq> ''last_activity''"
      for name v
    proof -
      from that have "name \<in> set (map fst kwargs)" by force
      with that given show ?thesis by simp
    qed
    show "objects ?sm' a name = objects sm a name"
      if "(name \<notin> set (map fst kwargs) \<or> \<not> hasattr (objects sm a) name) \<and>
            name \<noteq> ''last_activity''" for name
      using that by auto
  qed
next
  assume "map_of (active_sessions sm) k = None"
  then show "update_session sm session_id kwargs now = (sm, Inr False)"
    using key bound by (simp add: update_session_def)
qed

theorem update_session_spec_witness:
  "hashable_key (PStr ''s1'') = Some (KStr ''s1'') \<and>
   map_of (active_sessions one_session) (KStr ''s1'') = Some 0 \<and>
   hasattr (objects one_session 0) ''progress'' \<and>
   \<not> hasattr (objects one_session 0) ''colour'' \<and>
   snd (update_session one_session (PStr ''s1'')
          [(''progress'', PFloat 0.5), (''colour'', PInt 3)] 2000) = Inr True \<and>
   objects (fst (update_session one_session (PStr ''s1'')
          [(''progress'', PFloat 0.5), (''colour'', PInt 3)] 2000)) 0 ''progress'' =
     Some (PFloat 0.5) \<and>
   objects (fst (update_session one_session (PStr ''s1'')
          [(''progress'', PFloat 0.5), (''colour'', PInt 3)] 2000)) 0 ''colour'' = None \<and>
   objects (fst (update_session one_session (PStr ''s1'')
          [(''progress'', PFloat 0.5), (''colour'', PInt 3)] 2000)) 0 ''last_activity'' =
     Some (PDatetime 2000) \<and>
   map_of (active_sessions one_session) (KStr ''s2'') = None \<and>
   update_session one_session (PStr ''s2'')
     [(''progress'', PFloat 0.5), (''colour'', PInt 3)] 2000 = (one_session, Inr False)"
proof -
  let ?kw = "[(''progress'', PFloat 0.5), (''colour'', PInt 3)]"
  have k1: "hashable_key (PStr ''s1'') = Some (KStr ''s1'')"
    and k2: "hashable_key (PStr ''s2'') = Some (KStr ''s2'')"
    by simp_all
  have b1: "''self'' \<notin> set (map fst ?kw)" and b2: "''session_id'' \<notin> set (map fst ?kw)"
    by simp_all
  have reg: "map_of (active_sessions one_session) (KStr ''s1'') = Some 0"
    and unreg: "map_of (active_sessions one_session) (KStr ''s2'') = None"
    by (simp_all add: one_session_eq)
  have names: "distinct (map fst ?kw) \<and>
      (\<forall>name \<in> set (map fst ?kw). name \<notin> {''__class__'', ''__dict__'', ''__weakref__''})"
    by simp
  have known: "hasattr (objects one_session 0) ''progress''"
    and unknown: "\<not> hasattr (objects one_session 0) ''colour''"
    by (simp_all add: one_session_eq Session_def hasattr_def class_attributes_def)
  have old: "objects one_session 0 ''colour'' = None"
    by (simp add: one_session_eq Session_def)
  note spec1 = update_session_spec [OF k1 b1 b2, of one_session 2000]
  note spec2 = update_session_spec [OF k2 b1 b2, of one_session 2000]
  from spec1 [THEN conjunct1, rule_format, of 0, OF conjI [OF reg names]]
  obtain sm' where
    r: "update_session one_session (PStr ''s1'') ?kw 2000 = (sm', Inr True)"
    and la: "objects sm' 0 ''last_activity'' = Some (PDatetime 2000)"
    and given: "\<forall>name v. (name, v) \<in> set ?kw \<and> hasattr (objects one_session 0) name \<and>
                  name \<noteq> ''last_activity'' \<longrightarrow> objects sm' 0 name = Some v"
    and other: "\<forall>name. (name \<notin> set (map fst ?kw) \<or> \<not> hasattr (objects one_session 0) name) \<and>
                  name \<noteq> ''last_activity'' \<longrightarrow> objects sm' 0 name = objects one_session 0 name"
    by (elim exE conjE)
  from given [rule_format, of "''progress''" "PFloat 0.5"] known
  have pr: "objects sm' 0 ''progress'' = Some (PFloat 0.5)"
    by simp
  from other [rule_format, of "''colour''"] unknown old
  have col: "objects sm' 0 ''colour'' = None"
    by simp
  from spec2 [THEN conjunct2, rule_format, OF unreg]
  have absent: "update_session one_session (PStr ''s2'') ?kw 2000 = (one_session, Inr False)" .
  show ?thesis
    using k1 reg known unknown r la pr col unreg absent by simp
qed

text \<open>
  The specification's ``last activity strictly greater than before'' fails when the wall
  clock \<^verbatim>\<open>datetime.now()\<close>, a naive local time, has not advanced: \<^verbatim>\<open>s1\<close> was registered
  at 1000; an update that reads 1000 again (a coarse clock) succeeds and leaves
  \<^verbatim>\<open>last_activity\<close> at 1000, and an update that reads 400 (a clock set back, or local
  time after the end of daylight saving) succeeds and moves it back to 400.
\<close>

theorem update_session_clock_not_advanced:
  "objects one_session 0 ''last_activity'' = Some (PDatetime 1000) \<and>
   snd (update_session one_session (PStr ''s1'') [(''progress'', PFloat 0.5)] 1000) = Inr True \<and>
   objects (fst (update_session one_session (PStr ''s1'') [(''progress'', PFloat 0.5)] 1000)) 0
     ''last_activity'' = Some (PDatetime 1000) \<and>
   snd (update_session one_session (PStr ''s1'') [(''progress'', PFloat 0.5)] 400) = Inr True \<and>
   objects (fst (update_session one_session (PStr ''s1'') [(''progress'', PFloat 0.5)] 400)) 0
     ''last_activity'' = Some (PDatetime 400)"
  by (simp add: update_session_def one_session_eq Session_def hasattr_def setattr_def)

section \<open>Session Store: identity of a record\<close>

lemma apply_kwargs_frame:
  assumes "''__dict__'' \<notin> set (map fst kwargs)" and "name \<notin> set (map fst kwargs)"
  shows "fst (apply_kwargs obj kwargs) name = obj name"
  using assms
proof (induction kwargs arbitrary: obj)
  case Nil
  then show ?case by simp
next
  case (Cons kv rest)
  obtain key v where kv: "kv = (key, v)" by (cases kv)
  from Cons.prems kv have key: "key \<noteq> ''__dict__''" "key \<noteq> name"
    and rest: "''__dict__'' \<notin> set (map fst rest)" "name \<notin> set (map fst rest)"
    by auto
  show ?case
  proof (cases "hasattr obj key")
    case False
    then show ?thesis using kv Cons.IH [OF rest] by simp
  next
    case True
    show ?thesis
    proof (cases "setattr obj key v")
      case (Inl e)
      then show ?thesis using True kv by simp
    next
      case (Inr obj')
      then have "obj' = obj(key \<mapsto> v)"
        using key by (auto simp: setattr_def split: if_splits)
      then have "obj' name = obj name"
        using key by simp
      then show ?thesis
        using True kv Inr Cons.IH [OF rest, of obj'] by simp
    qed
  qed
qed

lemma update_session_registry:
  "active_sessions (fst (update_session sm session_id kwargs now)) = active_sessions sm"
  by (simp add: update_session_def split: option.splits prod.splits)

lemma update_session_frame:
  assumes "''__dict__'' \<notin> set (map fst kwargs)" and "name \<notin> set (map fst kwargs)"
    and "name \<noteq> ''last_activity''"
  shows "objects (fst (update_session sm session_id kwargs now)) a name = objects sm a name"
proof -
  have "fst (apply_kwargs (objects sm b) kwargs) name = objects sm b name" for b
    by (rule apply_kwargs_frame [OF assms(1,2)])
  then have "\<And>b obj r. apply_kwargs (objects sm b) kwargs = (obj, r) \<Longrightarrow> obj name = objects sm b name"
    by (metis fst_conv)
  then show ?thesis
    using assms(3) by (auto simp: update_session_def split: option.splits prod.splits)
qed

lemma update_session_rejected:
  "''session_id'' \<in> set (map fst kwargs) \<Longrightarrow> fst (update_session sm session_id kwargs now) = sm"
  by (simp add: update_session_def)

text \<open>
  C5, as the code has it. Through any sequence of calls of \<^verbatim>\<open>update_session\<close> none of
  which has the keyword \<^verbatim>\<open>__dict__\<close>, the registry keeps its keys and every record keeps
  its \<^verbatim>\<open>session_id\<close> (a keyword \<^verbatim>\<open>session_id\<close> cannot be bound, the call is rejected);
  every record keeps its \<^verbatim>\<open>user_id\<close> as long as no call has the keyword \<^verbatim>\<open>user_id\<close>.
\<close>

theorem update_calls_identity:
  assumes "\<forall>(session_id, kwargs, now) \<in> set calls. ''__dict__'' \<notin> set (map fst kwargs)"
  shows "active_sessions (update_calls sm calls) = active_sessions sm \<and>
         objects (update_calls sm calls) a ''session_id'' = objects sm a ''session_id'' \<and>
         ((\<forall>(session_id, kwargs, now) \<in> set calls. ''user_id'' \<notin> set (map fst kwargs)) \<longrightarrow>
            objects (update_calls sm calls) a ''user_id'' = objects sm a ''user_id'')"
  using assms
proof (induction calls arbitrary: sm)
  case Nil
  then show ?case by simp
next
  case (Cons c calls)
  obtain session_id kwargs now where c: "c = (session_id, kwargs, now)"
    by (cases c)
  let ?sm = "fst (update_session sm session_id kwargs now)"
  from Cons.prems c have nd: "''__dict__'' \<notin> set (map fst kwargs)"
    and rest: "\<forall>(session_id, kwargs, now) \<in> set calls. ''__dict__'' \<notin> set (map fst kwargs)"
    by auto
  note IH = Cons.IH [OF rest, of ?sm]
  have sid: "objects ?sm a ''session_id'' = objects sm a ''session_id''"
  proof (cases "''session_id'' \<in> set (map fst kwargs)")
    case True
    then show ?thesis by (simp add: update_session_rejected)
  next
    case False
    then show ?thesis by (simp add: update_session_frame [OF nd])
  qed
  have uid: "objects ?sm a ''user_id'' = objects sm a ''user_id''"
    if "''user_id'' \<notin> set (map fst kwargs)"
    using that by (simp add: update_session_frame [OF nd])
  show ?case
    using IH sid uid c by (auto simp: update_session_registry)
qed

text \<open>
  The specification's ``no Update changes \<^verbatim>\<open>user_id\<close>'' fails: \<^verbatim>\<open>user_id\<close> is an attribute like
  any other, and \<^verbatim>\<open>update_session("s1", user_id="mallory")\<close> overwrites it.
\<close>

theorem update_session_user_id_counterexample:
  "objects one_session 0 ''user_id'' = Some (PStr ''u1'') \<and>
   snd (update_session one_session (PStr ''s1'') [(''user_id'', PStr ''mallory'')] 2000) = Inr True \<and>
   objects (fst (update_session one_session (PStr ''s1'') [(''user_id'', PStr ''mallory'')] 2000)) 0
     ''user_id'' = Some (PStr ''mallory'')"
  by (simp add: update_session_def one_session_eq Session_def hasattr_def setattr_def)

theorem update_calls_identity_witness:
  "''__dict__'' \<notin> set (map fst [(''progress'', PFloat 0.5)]) \<and>
   ''user_id'' \<notin> set (map fst [(''progress'', PFloat 0.5)]) \<and>
   ''__dict__'' \<notin> set (map fst [(''status'', PStr ''idle'')]) \<and>
   ''user_id'' \<notin> set (map fst [(''status'', PStr ''idle'')]) \<and>
   objects (update_calls one_session [(PStr ''s1'', [(''progress'', PFloat 0.5)], 2000),
        (PStr ''s1'', [(''status'', PStr ''idle'')], 3000)]) 0 ''session_id'' = Some (PStr ''s1'') \<and>
   objects (update_calls one_session [(PStr ''s1'', [(''progress'', PFloat 0.5)], 2000),
        (PStr ''s1'', [(''status'', PStr ''idle'')], 3000)]) 0 ''user_id'' = Some (PStr ''u1'') \<and>
   objects (update_calls one_session [(PStr ''s1'', [(''progress'', PFloat 0.5)], 2000),
        (PStr ''s1'', [(''status'', PStr ''idle'')], 3000)]) 0 ''status'' = Some (PStr ''idle'')"
proof -
  let ?calls = "[(PStr ''s1'', [(''progress'', PFloat 0.5)], 2000::int),
        (PStr ''s1'', [(''status'', PStr ''idle'')], 3000)]"
  have nd: "\<forall>(session_id, kwargs, now) \<in> set ?calls. ''__dict__'' \<notin> set (map fst kwargs)"
    by simp
  have nu: "\<forall>(session_id, kwargs, now) \<in> set ?calls. ''user_id'' \<notin> set (map fst kwargs)"
    by simp
  have old: "objects one_session 0 ''session_id'' = Some (PStr ''s1'')"
    "objects one_session 0 ''user_id'' = Some (PStr ''u1'')"
    by (simp_all add: one_session_eq Session_def)
  note spec = update_calls_identity [OF nd, of one_session 0]
  from spec have sid: "objects (update_calls one_session ?calls) 0 ''session_id'' = Some (PStr ''s1'')"
    using old by simp
  from spec [THEN conjunct2, THEN conjunct2, THEN mp, OF nu]
  have uid: "objects (update_calls one_session ?calls) 0 ''user_id'' = Some (PStr ''u1'')"
    using old by simp
  have st: "objects (update_calls one_session ?calls) 0 ''status'' = Some (PStr ''idle'')"
    by (simp add: update_session_def one_session_eq Session_def hasattr_def setattr_def)
  show ?thesis
    using sid uid st by simp
qed

section \<open>Session Store: the idle sweep\<close>

lemma two_sessions_eq:
  "two_sessions =
     \<lparr>objects = ((\<lambda>a. Map.empty)(0 :=
        Session (PStr ''s1'') (PStr ''u1'') (PStr ''active'') (PStr ''initializing'')
          (PFloat 0) (PDatetime 1000) (PDict [])))(Suc 0 :=
        Session (PStr ''s2'') (PStr ''u2'') (PStr ''active'') (PStr ''initializing'')
          (PFloat 0) (PDatetime 60001000) (PDict [])),
      next_addr = Suc (Suc 0), active_sessions = [(KStr ''s1'', 0), (KStr ''s2'', Suc 0)]\<rparr>"
  by (simp add: two_sessions_def one_session_eq register_session_def)

lemma unstamped_session_eq:
  "unstamped_session =
     one_session\<lparr>objects := (objects one_session)
       (0 := (objects one_session 0)(''last_activity'' \<mapsto> PStr ''never''))\<rparr>"
  by (simp add: unstamped_session_def update_session_def one_session_eq Session_def hasattr_def
      setattr_def class_attributes_def)






lemma fold_dict_del: "fold dict_del ks reg = filter (\<lambda>(k, a). k \<notin> set ks) reg"
proof (induction ks arbitrary: reg)
  case Nil
  then show ?case by simp
next
  case (Cons k ks)
  have "fold dict_del (k # ks) reg = filter (\<lambda>(k', a). k' \<notin> set ks) (dict_del k reg)"
    using Cons.IH by simp
  also have "\<dots> = filter (\<lambda>(k', a). k' \<notin> set (k # ks)) reg"
    by (auto simp: dict_del_def intro: filter_cong)
  finally show ?case .
qed








section \<open>Session Store: lists of sessions are lists of references\<close>

lemma register_session_objects:
  "a < next_addr sm \<Longrightarrow> objects (fst (register_session sm session_id user_id now)) a = objects sm a"
  by (simp add: register_session_def split: option.splits)

lemma cleanup_objects:
  "objects (fst (cleanup_inactive_sessions rt sm now timeout_minutes)) = objects sm"
  by (simp add: cleanup_inactive_sessions_def split: sum.splits)

lemma register_session_next_addr:
  "next_addr sm \<le> next_addr (fst (register_session sm session_id user_id now))"
  by (simp add: register_session_def split: option.splits)

lemma cleanup_next_addr:
  "next_addr (fst (cleanup_inactive_sessions rt sm now timeout_minutes)) = next_addr sm"
  by (simp add: cleanup_inactive_sessions_def split: sum.splits)

lemma update_session_next_addr:
  "next_addr (fst (update_session sm session_id kwargs now)) = next_addr sm"
  by (simp add: update_session_def split: option.splits prod.splits)

lemma update_session_other_objects:
  assumes "\<forall>k. hashable_key session_id = Some k \<longrightarrow> map_of (active_sessions sm) k \<noteq> Some a"
  shows "objects (fst (update_session sm session_id kwargs now)) a = objects sm a"
  using assms by (auto simp: update_session_def split: option.splits prod.splits)

lemma register_session_refs:
  "set (get_all_sessions (fst (register_session sm session_id user_id now))) \<subseteq>
     insert (next_addr sm) (set (get_all_sessions sm))"
  by (auto simp: get_all_sessions_def register_session_def split: option.splits)

lemma cleanup_refs:
  "set (get_all_sessions (fst (cleanup_inactive_sessions rt sm now timeout_minutes))) \<subseteq>
     set (get_all_sessions sm)"
  by (auto simp: get_all_sessions_def cleanup_inactive_sessions_def fold_dict_del
      split: sum.splits)

lemma update_session_refs:
  "get_all_sessions (fst (update_session sm session_id kwargs now)) = get_all_sessions sm"
  by (simp add: get_all_sessions_def update_session_registry)

lemma allocated_refs_new: "allocated_refs new_manager"
  by (simp add: allocated_refs_def get_all_sessions_def new_manager_def)

lemma allocated_refs_register:
  "allocated_refs sm \<Longrightarrow> allocated_refs (fst (register_session sm session_id user_id now))"
  by (auto simp: allocated_refs_def get_all_sessions_def register_session_def
      split: option.splits)

lemma allocated_refs_update:
  "allocated_refs sm \<Longrightarrow> allocated_refs (fst (update_session sm session_id kwargs now))"
  by (simp add: allocated_refs_def update_session_refs update_session_next_addr)

lemma allocated_refs_cleanup:
  "allocated_refs sm \<Longrightarrow>
     allocated_refs (fst (cleanup_inactive_sessions rt sm now timeout_minutes))"
  using cleanup_refs [of rt sm now timeout_minutes]
  by (auto simp: allocated_refs_def cleanup_next_addr)

lemma allocated_refs_store_calls:
  "allocated_refs sm \<Longrightarrow> allocated_refs (store_calls rt sm calls)"
proof (induction calls arbitrary: sm)
  case Nil
  then show ?case by simp
next
  case (Cons c calls)
  have "allocated_refs (store_call rt sm c)"
    using Cons.prems
    by (cases c) (simp_all add: allocated_refs_register allocated_refs_update allocated_refs_cleanup)
  then show ?case
    using Cons.IH by simp
qed

lemma store_call_next_addr: "next_addr sm \<le> next_addr (store_call rt sm c)"
  by (cases c)
    (simp_all add: register_session_next_addr update_session_next_addr cleanup_next_addr)

text \<open>One call that does not name a record leaves the record as it is.\<close>

lemma store_call_objects:
  assumes "a < next_addr sm" and "\<not> names_record sm c a"
  shows "objects (store_call rt sm c) a = objects sm a"
proof (cases c)
  case (Register session_id user_id now)
  then show ?thesis
    using assms(1) by (simp add: register_session_objects)
next
  case (Update session_id kwargs now)
  with assms(2)
  have "\<forall>k. hashable_key session_id = Some k \<longrightarrow> map_of (active_sessions sm) k \<noteq> Some a"
    by (auto split: option.splits)
  then show ?thesis
    using Update by (simp add: update_session_other_objects)
next
  case (SweepIdle now timeout_minutes)
  then show ?thesis
    by (simp add: cleanup_objects)
qed

lemma store_calls_objects:
  assumes "a < next_addr sm" and "leave_alone rt sm calls a"
  shows "objects (store_calls rt sm calls) a = objects sm a"
  using assms
proof (induction calls arbitrary: sm)
  case Nil
  then show ?case by simp
next
  case (Cons c calls)
  from Cons.prems have c: "\<not> names_record sm c a"
    and rest: "leave_alone rt (store_call rt sm c) calls a"
    by simp_all
  have "a < next_addr (store_call rt sm c)"
    using Cons.prems(1) store_call_next_addr [of sm rt c] by simp
  then have "objects (store_calls rt (store_call rt sm c) calls) a = objects (store_call rt sm c) a"
    using rest by (rule Cons.IH)
  then show ?case
    using store_call_objects [OF Cons.prems(1) c, of rt] by simp
qed

text \<open>
  A record that the registry does not hold is named by no call, and no call brings it
  back: \<^verbatim>\<open>register_session\<close> creates a new object for the entry it adds.
\<close>

lemma names_record_registered:
  "names_record sm c a \<Longrightarrow> a \<in> set (get_all_sessions sm)"
proof (cases c)
  case (Update session_id kwargs now)
  assume "names_record sm c a"
  with Update obtain k where "map_of (active_sessions sm) k = Some a"
    by (auto split: option.splits)
  then have "(k, a) \<in> set (active_sessions sm)"
    by (rule map_of_SomeD)
  then show ?thesis
    by (force simp: get_all_sessions_def)
qed simp_all

lemma store_call_refs:
  "set (get_all_sessions (store_call rt sm c)) \<subseteq> insert (next_addr sm) (set (get_all_sessions sm))"
proof (cases c)
  case (Register session_id user_id now)
  then show ?thesis
    using register_session_refs [of sm session_id user_id now] by simp
next
  case (Update session_id kwargs now)
  then show ?thesis
    by (auto simp: update_session_refs)
next
  case (SweepIdle now timeout_minutes)
  then show ?thesis
    using cleanup_refs [of rt sm now timeout_minutes] by auto
qed

lemma evicted_objects:
  assumes "a < next_addr sm" and "a \<notin> set (get_all_sessions sm)"
  shows "objects (store_calls rt sm calls) a = objects sm a \<and>
         a \<notin> set (get_all_sessions (store_calls rt sm calls))"
  using assms
proof (induction calls arbitrary: sm)
  case Nil
  then show ?case by simp
next
  case (Cons c calls)
  have c: "\<not> names_record sm c a"
    using Cons.prems(2) names_record_registered by blast
  have lt: "a < next_addr (store_call rt sm c)"
    using Cons.prems(1) store_call_next_addr [of sm rt c] by simp
  have out: "a \<notin> set (get_all_sessions (store_call rt sm c))"
    using Cons.prems store_call_refs [of rt sm c] by auto
  have "objects (store_calls rt (store_call rt sm c) calls) a = objects (store_call rt sm c) a \<and>
      a \<notin> set (get_all_sessions (store_calls rt (store_call rt sm c) calls))"
    using lt out by (rule Cons.IH)
  then show ?case
    using store_call_objects [OF Cons.prems(1) c, of rt] by simp
qed

lemma store_calls_next_addr: "next_addr sm \<le> next_addr (store_calls rt sm calls)"
proof (induction calls arbitrary: sm)
  case Nil
  then show ?case by simp
next
  case (Cons c calls)
  have "next_addr sm \<le> next_addr (store_call rt sm c)"
    by (rule store_call_next_addr)
  also have "\<dots> \<le> next_addr (store_calls rt (store_call rt sm c) calls)"
    by (rule Cons.IH)
  finally show ?case by simp
qed

text \<open>
  C4, as the code has it. \<^verbatim>\<open>get_all_sessions\<close> returns a new list of references to the
  live records, not copies of them. For every record \<open>a\<close> of the returned list and every
  later sequence of \<^verbatim>\<open>register_session\<close>, \<^verbatim>\<open>update_session\<close> and
  \<^verbatim>\<open>cleanup_inactive_sessions\<close> calls: if no \<^verbatim>\<open>update_session\<close> of the sequence names an id
  that is, when the call is made, registered to \<open>a\<close>, every field of \<open>a\<close> is what it was
  (an update changes no record but the one it names, eviction removes the registry
  entry and leaves the object); and once \<open>a\<close> is out of the registry, no further sequence
  of calls changes it or registers it again.
\<close>

theorem get_all_sessions_snapshot:
  assumes "allocated_refs sm" and "a \<in> set (get_all_sessions sm)"
  shows "(leave_alone rt sm calls a \<longrightarrow> objects (store_calls rt sm calls) a = objects sm a) \<and>
         (a \<notin> set (get_all_sessions (store_calls rt sm calls)) \<longrightarrow>
            objects (store_calls rt (store_calls rt sm calls) later) a =
              objects (store_calls rt sm calls) a \<and>
            a \<notin> set (get_all_sessions (store_calls rt (store_calls rt sm calls) later)))"
proof -
  from assms have lt: "a < next_addr sm"
    by (simp add: allocated_refs_def)
  then have "a < next_addr (store_calls rt sm calls)"
    using store_calls_next_addr [of sm rt calls] by simp
  then show ?thesis
    using lt store_calls_objects [of a sm rt calls]
      evicted_objects [of a "store_calls rt sm calls" rt later]
    by blast
qed

text \<open>
  The specification's ``no later operation changes the records of a returned list'' fails for
  \<^verbatim>\<open>update_session\<close>: the list returned for the manager holding \<^verbatim>\<open>s1\<close> is the one reference
  0; after \<^verbatim>\<open>update_session("s1", progress=0.5)\<close> the record at that reference has
  progress 0.5 in place of 0.0.
\<close>

theorem snapshot_sees_update:
  "get_all_sessions one_session = [0] \<and>
   objects one_session 0 ''progress'' = Some (PFloat 0) \<and>
   objects (fst (update_session one_session (PStr ''s1'') [(''progress'', PFloat 0.5)] 2000)) 0
     ''progress'' = Some (PFloat 0.5)"
  by (simp add: get_all_sessions_def update_session_def one_session_eq Session_def hasattr_def
      setattr_def)

theorem get_all_sessions_snapshot_witness:
  "allocated_refs two_sessions \<and> get_all_sessions two_sessions = [0, Suc 0] \<and>
   leave_alone example_runtime two_sessions
     [Update (PStr ''s2'') [(''progress'', PFloat 0.5)] 70000000,
      Register (PStr ''s3'') (PStr ''u3'') 70000000,
      SweepIdle 1860001000 30] 0 \<and>
   objects (store_calls example_runtime two_sessions
     [Update (PStr ''s2'') [(''progress'', PFloat 0.5)] 70000000,
      Register (PStr ''s3'') (PStr ''u3'') 70000000,
      SweepIdle 1860001000 30]) (Suc 0) ''progress'' = Some (PFloat 0.5) \<and>
   objects (store_calls example_runtime two_sessions
     [Update (PStr ''s2'') [(''progress'', PFloat 0.5)] 70000000,
      Register (PStr ''s3'') (PStr ''u3'') 70000000,
      SweepIdle 1860001000 30]) 0 = objects two_sessions 0 \<and>
   get_all_sessions (store_calls example_runtime two_sessions
     [Update (PStr ''s2'') [(''progress'', PFloat 0.5)] 70000000,
      Register (PStr ''s3'') (PStr ''u3'') 70000000,
      SweepIdle 1860001000 30]) = [Suc 0, Suc (Suc 0)] \<and>
   objects (store_calls example_runtime (store_calls example_runtime two_sessions
     [Update (PStr ''s2'') [(''progress'', PFloat 0.5)] 70000000,
      Register (PStr ''s3'') (PStr ''u3'') 70000000,
      SweepIdle 1860001000 30])
     [Update (PStr ''s1'') [(''progress'', PFloat 0.9)] 1860002000,
      Register (PStr ''s1'') (PStr ''u9'') 1860003000]) 0 = objects two_sessions 0"
proof -
  let ?calls = "[Update (PStr ''s2'') [(''progress'', PFloat 0.5)] 70000000,
      Register (PStr ''s3'') (PStr ''u3'') 70000000,
      SweepIdle 1860001000 30]"
  let ?later = "[Update (PStr ''s1'') [(''progress'', PFloat 0.9)] 1860002000,
      Register (PStr ''s1'') (PStr ''u9'') 1860003000]"
  have inv: "allocated_refs two_sessions"
    by (simp add: allocated_refs_def get_all_sessions_def two_sessions_eq)
  have snap: "get_all_sessions two_sessions = [0, Suc 0]"
    by (simp add: get_all_sessions_def two_sessions_eq)
  then have mem: "0 \<in> set (get_all_sessions two_sessions)"
    by simp
  have after: "store_calls example_runtime two_sessions ?calls =
     \<lparr>objects = (\<lambda>a. Map.empty)(0 :=
        Session (PStr ''s1'') (PStr ''u1'') (PStr ''active'') (PStr ''initializing'')
          (PFloat 0) (PDatetime 1000) (PDict []),
        Suc 0 :=
        (Session (PStr ''s2'') (PStr ''u2'') (PStr ''active'') (PStr ''initializing'')
          (PFloat 0) (PDatetime 60001000) (PDict []))
          (''progress'' \<mapsto> PFloat 0.5, ''last_activity'' \<mapsto> PDatetime 70000000),
        Suc (Suc 0) :=
        Session (PStr ''s3'') (PStr ''u3'') (PStr ''active'') (PStr ''initializing'')
          (PFloat 0) (PDatetime 70000000) (PDict [])),
      next_addr = Suc (Suc (Suc 0)),
      active_sessions = [(KStr ''s2'', Suc 0), (KStr ''s3'', Suc (Suc 0))]\<rparr>"
    by (simp add: two_sessions_eq update_session_def register_session_def
        cleanup_inactive_sessions_def Session_def time_diff_def getattr_def dict_del_def
        hasattr_def setattr_def example_runtime_def fun_upd_twist)
  have alone: "leave_alone example_runtime two_sessions ?calls 0"
    by (simp add: two_sessions_eq update_session_def register_session_def
        Session_def hasattr_def setattr_def)
  have progress: "objects (store_calls example_runtime two_sessions ?calls) (Suc 0) ''progress'' =
      Some (PFloat 0.5)"
    by (simp only: after) simp
  have refs: "get_all_sessions (store_calls example_runtime two_sessions ?calls) =
      [Suc 0, Suc (Suc 0)]"
    by (simp only: after) (simp add: get_all_sessions_def)
  then have out: "0 \<notin> set (get_all_sessions (store_calls example_runtime two_sessions ?calls))"
    by simp
  note inst = get_all_sessions_snapshot [OF inv mem, of example_runtime ?calls ?later]
  from inst [THEN conjunct1, THEN mp, OF alone]
  have c1: "objects (store_calls example_runtime two_sessions ?calls) 0 = objects two_sessions 0" .
  from inst [THEN conjunct2, THEN mp, OF out, THEN conjunct1] c1
  have c2: "objects (store_calls example_runtime
      (store_calls example_runtime two_sessions ?calls) ?later) 0 = objects two_sessions 0"
    by simp
  show ?thesis
    by (intro conjI) (rule inv snap alone progress c1 refs c2)+
qed

section \<open>Connection Hub: errors of a message\<close>

lemma error_reply_serializable: "json_serializable (error_reply message)"
  by (simp add: error_reply_def)

lemma send_json_open:
  "ws_open ws \<Longrightarrow> json_serializable doc \<Longrightarrow> send_json ws doc = Inr [Text doc]"
  by (simp add: send_json_def json_dumps_def ws_send_def bind_exn_def)

lemma handle_message_raised:
  assumes "ws_open ws" and "handle_command rt sm ws message now = (sm', Inl e)"
  shows "handle_message rt sm ws message now =
           (sm', [Text (PDict [(''type'', PStr ''error''),
                    (''message'', PStr (if e = JSONDecodeError then ''Invalid JSON format''
                                        else str_exn rt e))])], None)"
  using assms send_json_open [OF assms(1) error_reply_serializable]
  by (simp add: handle_message_def error_reply_def)

lemma handle_message_returns:
  assumes "ws_open ws"
  shows "snd (snd (handle_message rt sm ws message now)) = None"
proof (cases "handle_command rt sm ws message now")
  case (Pair sm' r)
  show ?thesis
  proof (cases r)
    case (Inl e)
    with Pair handle_message_raised [OF assms] show ?thesis by simp
  next
    case (Inr sent)
    with Pair show ?thesis by (simp add: handle_message_def)
  qed
qed

lemma handle_command_rejected: "handle_command rt sm ws (Rejected e) now = (sm, Inl e)"
  by (simp add: handle_command_def json_loads_def)

lemma handle_command_unrecognized:
  assumes "map_of d ''command'' \<notin>
             {Some (PStr ''register_session''), Some (PStr ''update_session''),
              Some (PStr ''get_sessions'')}"
  shows "handle_command rt sm ws (Text (PDict d)) now = (sm, Inr [])"
  using assms
  by (auto simp: handle_command_def json_loads_def Let_def dict_get_def split: option.splits)

lemma handle_command_no_dict:
  assumes "\<forall>d. doc \<noteq> PDict d"
  shows "handle_command rt sm ws (Text doc) now = (sm, Inl AttributeError)"
  using assms by (cases doc) (simp_all add: handle_command_def json_loads_def)

lemma handle_command_unhashable:
  assumes "map_of d ''command'' = Some (PStr ''register_session'')"
    and "map_of d ''session_id'' = Some session_id" and "hashable_key session_id = None"
  shows "handle_command rt sm ws (Text (PDict d)) now = (sm, Inl TypeError)"
  using assms
  by (simp add: handle_command_def json_loads_def Let_def dict_get_def register_session_def)

text \<open>
  C6, as the code has it. On an open connection \<^verbatim>\<open>handle_message\<close> never lets an
  exception out, so the connection's loop goes on, and every reply goes to the
  connection the message came from. A payload on which \<^verbatim>\<open>json.loads\<close> raises
  \<^verbatim>\<open>JSONDecodeError\<close> gets the one reply \<^verbatim>\<open>{"type": "error", "message": "Invalid JSON format"}\<close>
  and the store is as before; one on which it raises another exception gets the reply
  with the message \<^verbatim>\<open>str(e)\<close>. A payload that parses to an object whose command is none
  of the three gets no reply at all, and the store is as before. A payload that parses
  to something else than an object, a registration whose session id cannot be a key,
  and any other exception raised while the message is processed get the one reply
  \<^verbatim>\<open>error\<close> with the message \<^verbatim>\<open>str(e)\<close>.
\<close>

theorem handle_message_errors:
  assumes "ws_open ws"
  shows "snd (snd (handle_message rt sm ws message now)) = None \<and>
         handle_message rt sm ws (Rejected JSONDecodeError) now =
           (sm, [Text (PDict [(''type'', PStr ''error''),
                              (''message'', PStr ''Invalid JSON format'')])], None) \<and>
         (\<forall>e. e \<noteq> JSONDecodeError \<longrightarrow>
              handle_message rt sm ws (Rejected e) now =
                (sm, [Text (PDict [(''type'', PStr ''error''),
                                   (''message'', PStr (str_exn rt e))])], None)) \<and>
         (\<forall>d. map_of d ''command'' \<notin>
                {Some (PStr ''register_session''), Some (PStr ''update_session''),
                 Some (PStr ''get_sessions'')} \<longrightarrow>
              handle_message rt sm ws (Text (PDict d)) now = (sm, [], None)) \<and>
         (\<forall>doc. (\<forall>d. doc \<noteq> PDict d) \<longrightarrow>
              handle_message rt sm ws (Text doc) now =
                (sm, [Text (PDict [(''type'', PStr ''error''),
                                   (''message'', PStr (str_exn rt AttributeError))])], None)) \<and>
         (\<forall>d session_id.
              map_of d ''command'' = Some (PStr ''register_session'') \<and>
              map_of d ''session_id'' = Some session_id \<and> hashable_key session_id = None \<longrightarrow>
              handle_message rt sm ws (Text (PDict d)) now =
                (sm, [Text (PDict [(''type'', PStr ''error''),
                                   (''message'', PStr (str_exn rt TypeError))])], None)) \<and>
         (\<forall>sm' e. handle_command rt sm ws message now = (sm', Inl e) \<and> e \<noteq> JSONDecodeError \<longrightarrow>
              handle_message rt sm ws message now =
                (sm', [Text (PDict [(''type'', PStr ''error''),
                                    (''message'', PStr (str_exn rt e))])], None))"
proof (intro conjI allI impI)
  show "snd (snd (handle_message rt sm ws message now)) = None"
    by (rule handle_message_returns [OF assms])
  show "handle_message rt sm ws (Rejected JSONDecodeError) now =
           (sm, [Text (PDict [(''type'', PStr ''error''),
                              (''message'', PStr ''Invalid JSON format'')])], None)"
    using handle_message_raised [OF assms handle_command_rejected] by simp
  show "handle_message rt sm ws (Rejected e) now =
                (sm, [Text (PDict [(''type'', PStr ''error''),
                                   (''message'', PStr (str_exn rt e))])], None)"
    if "e \<noteq> JSONDecodeError" for e
    using that handle_message_raised [OF assms handle_command_rejected, of rt sm e now] by simp
  show "handle_message rt sm ws (Text (PDict d)) now = (sm, [], None)"
    if "map_of d ''command'' \<notin>
                {Some (PStr ''register_session''), Some (PStr ''update_session''),
                 Some (PStr ''get_sessions'')}" for d
    using handle_command_unrecognized [OF that] by (simp add: handle_message_def)
  show "handle_message rt sm ws (Text doc) now =
                (sm, [Text (PDict [(''type'', PStr ''error''),
                                   (''message'', PStr (str_exn rt AttributeError))])], None)"
    if "\<forall>d. doc \<noteq> PDict d" for doc
    using handle_message_raised [OF assms handle_command_no_dict [OF that]] by simp
  show "handle_message rt sm ws (Text (PDict d)) now =
                (sm, [Text (PDict [(''type'', PStr ''error''),
                                   (''message'', PStr (str_exn rt TypeError))])], None)"
    if "map_of d ''command'' = Some (PStr ''register_session'') \<and>
        map_of d ''session_id'' = Some session_id \<and> hashable_key session_id = None"
    for d session_id
    using that handle_message_raised [OF assms handle_command_unhashable, of d session_id rt sm now]
    by simp
  show "handle_message rt sm ws message now =
                (sm', [Text (PDict [(''type'', PStr ''error''),
                                    (''message'', PStr (str_exn rt e))])], None)"
    if "handle_command rt sm ws message now = (sm', Inl e) \<and> e \<noteq> JSONDecodeError" for sm' e
    using that handle_message_raised [OF assms, of rt sm message now sm' e] by simp
qed

text \<open>
  The specification's ``an unrecognized command is reported to the offending client'' fails: the
  command \<^verbatim>\<open>delete_session\<close> gets no frame back.
\<close>

theorem unrecognized_command_no_reply:
  "handle_message example_runtime one_session (open_client 1)
     (Text (PDict [(''command'', PStr ''delete_session''), (''session_id'', PStr ''s1'')])) 2000 =
     (one_session, [], None)"
  by (simp add: handle_message_def handle_command_def json_loads_def dict_get_def open_client_def)

theorem handle_message_errors_witness:
  "ws_open (open_client 1) \<and>
   handle_message example_runtime one_session (open_client 1) (Rejected JSONDecodeError) 2000 =
     (one_session, [Text (PDict [(''type'', PStr ''error''),
                                 (''message'', PStr ''Invalid JSON format'')])], None) \<and>
   ValueError \<noteq> JSONDecodeError \<and>
   handle_message example_runtime one_session (open_client 1) (Rejected ValueError) 2000 =
     (one_session, [Text (PDict [(''type'', PStr ''error''),
                                 (''message'', PStr ''exception'')])], None) \<and>
   map_of [(''command'', PStr ''delete_session'')] ''command'' = Some (PStr ''delete_session'') \<and>
   handle_message example_runtime one_session (open_client 1)
     (Text (PDict [(''command'', PStr ''delete_session'')])) 2000 = (one_session, [], None) \<and>
   handle_message example_runtime one_session (open_client 1) (Text (PList [])) 2000 =
     (one_session, [Text (PDict [(''type'', PStr ''error''),
                                 (''message'', PStr ''exception'')])], None) \<and>
   hashable_key (PList []) = None \<and>
   handle_message example_runtime one_session (open_client 1)
     (Text (PDict [(''command'', PStr ''register_session''), (''session_id'', PList [])])) 2000 =
     (one_session, [Text (PDict [(''type'', PStr ''error''),
                                 (''message'', PStr ''exception'')])], None) \<and>
   handle_command example_runtime one_session (open_client 1)
     (Text (PDict [(''command'', PStr ''update_session''), (''updates'', PInt 1)])) 2000 =
     (one_session, Inl TypeError) \<and>
   handle_message example_runtime one_session (open_client 1)
     (Text (PDict [(''command'', PStr ''update_session''), (''updates'', PInt 1)])) 2000 =
     (one_session, [Text (PDict [(''type'', PStr ''error''),
                                 (''message'', PStr ''exception'')])], None)"
proof -
  let ?upd = "Text (PDict [(''command'', PStr ''update_session''), (''updates'', PInt 1)])"
  have o: "ws_open (open_client 1)"
    by (simp add: open_client_def)
  have str: "str_exn example_runtime = (\<lambda>e. ''exception'')"
    by (simp add: example_runtime_def)
  have cmd: "map_of [(''command'', PStr ''delete_session'')] ''command'' =
      Some (PStr ''delete_session'')"
    by simp
  have cmd': "map_of [(''command'', PStr ''delete_session'')] ''command'' \<notin>
     {Some (PStr ''register_session''), Some (PStr ''update_session''),
      Some (PStr ''get_sessions'')}"
    by simp
  have raised: "handle_command example_runtime one_session (open_client 1) ?upd 2000 =
     (one_session, Inl TypeError)"
    by (simp add: handle_command_def json_loads_def dict_get_def)
  have no_dict: "\<forall>d. PList [] \<noteq> PDict d"
    by simp
  have unhashable: "hashable_key (PList []) = None"
    by simp
  have reg: "map_of [(''command'', PStr ''register_session''), (''session_id'', PList [])]
        ''command'' = Some (PStr ''register_session'') \<and>
      map_of [(''command'', PStr ''register_session''), (''session_id'', PList [])]
        ''session_id'' = Some (PList []) \<and> hashable_key (PList []) = None"
    by simp
  note inst = handle_message_errors [OF o, of example_runtime one_session ?upd 2000]
  from inst have c1: "handle_message example_runtime one_session (open_client 1)
      (Rejected JSONDecodeError) 2000 =
     (one_session, [Text (PDict [(''type'', PStr ''error''),
                                 (''message'', PStr ''Invalid JSON format'')])], None)"
    by (rule conjunct2 [THEN conjunct1])
  have ne: "ValueError \<noteq> JSONDecodeError"
    by simp
  from inst [THEN conjunct2, THEN conjunct2, THEN conjunct1, THEN spec, THEN mp, OF ne]
  have c2: "handle_message example_runtime one_session (open_client 1) (Rejected ValueError) 2000 =
     (one_session, [Text (PDict [(''type'', PStr ''error''),
                                 (''message'', PStr ''exception'')])], None)"
    by (simp add: str)
  from inst [THEN conjunct2, THEN conjunct2, THEN conjunct2, THEN conjunct1, THEN spec, THEN mp,
      OF cmd']
  have c3: "handle_message example_runtime one_session (open_client 1)
     (Text (PDict [(''command'', PStr ''delete_session'')])) 2000 = (one_session, [], None)" .
  from inst [THEN conjunct2, THEN conjunct2, THEN conjunct2, THEN conjunct2, THEN conjunct1,
      THEN spec, THEN mp, OF no_dict]
  have c4: "handle_message example_runtime one_session (open_client 1) (Text (PList [])) 2000 =
     (one_session, [Text (PDict [(''type'', PStr ''error''),
                                 (''message'', PStr ''exception'')])], None)"
    by (simp add: str)
  from inst [THEN conjunct2, THEN conjunct2, THEN conjunct2, THEN conjunct2, THEN conjunct2,
      THEN conjunct1, THEN spec, THEN spec, THEN mp, OF reg]
  have c5: "handle_message example_runtime one_session (open_client 1)
     (Text (PDict [(''command'', PStr ''register_session''), (''session_id'', PList [])])) 2000 =
     (one_session, [Text (PDict [(''type'', PStr ''error''),
                                 (''message'', PStr ''exception'')])], None)"
    by (simp add: str)
  have "handle_command example_runtime one_session (open_client 1) ?upd 2000 =
     (one_session, Inl TypeError) \<and> TypeError \<noteq> JSONDecodeError"
    using raised by simp
  from inst [THEN conjunct2, THEN conjunct2, THEN conjunct2, THEN conjunct2, THEN conjunct2,
      THEN conjunct2, THEN spec, THEN spec, THEN mp, OF this]
  have c6: "handle_message example_runtime one_session (open_client 1) ?upd 2000 =
     (one_session, [Text (PDict [(''type'', PStr ''error''),
                                 (''message'', PStr ''exception'')])], None)"
    by (simp add: str)
  show ?thesis
    by (intro conjI) (rule o c1 ne c2 cmd c3 c4 unhashable c5 raised c6)+
qed

section \<open>Connection Hub: broadcast\<close>

text \<open>
  While no other task changes the set, the loop visits every client: the open ones are
  sent the message, the closed ones are collected and removed afterwards.
\<close>

lemma send_to_all_quiet:
  assumes "length clients = used" and "\<forall>ev \<in> set schedule. ev = None"
  shows "send_to_all clients used todo schedule f delivered disconnected =
     (clients, delivered @ map (\<lambda>c. (ws_id c, f)) (filter ws_open todo),
      disconnected @ filter (\<lambda>c. \<not> ws_open c) todo, None)"
  using assms(2)
proof (induction todo arbitrary: schedule delivered disconnected)
  case Nil
  then show ?case
    using assms(1) by simp
next
  case (Cons client rest)
  have now: "other_task (case schedule of [] \<Rightarrow> None | ev # later \<Rightarrow> ev) clients = clients"
    using Cons.prems by (cases schedule) simp_all
  have later: "\<forall>ev \<in> set (tl schedule). ev = None"
    using Cons.prems by (cases schedule) simp_all
  show ?case
    using assms(1) now Cons.IH [OF later] by (simp add: ws_send_def)
qed

lemma broadcast_update_quiet:
  assumes "json_serializable message" and "\<forall>ev \<in> set schedule. ev = None"
  shows "broadcast_update clients message schedule =
           (filter ws_open clients,
            map (\<lambda>c. (ws_id c, Text message)) (filter ws_open clients), None)"
  using assms(1) send_to_all_quiet [OF refl assms(2), of clients clients "Text message" "[]" "[]"]
  by (simp add: broadcast_update_def json_dumps_def cong: filter_cong)

text \<open>
  C7 fails in the code. The periodic broadcast of \<^verbatim>\<open>sessions_cleaned\<close> goes to the open
  clients 1, 2 and 3 and to client 4, whose connection has closed. While
  \<^verbatim>\<open>broadcast_update\<close> waits in the \<^verbatim>\<open>send\<close> to client 1, the \<^verbatim>\<open>finally\<close> of client 4's
  \<^verbatim>\<open>register_client\<close> removes it from \<^verbatim>\<open>self.clients\<close>. The loop's next step raises \<^verbatim>\<open>RuntimeError\<close>, which nothing catches:
  client 1 has the message, clients 2 and 3, connected and open, never get it, and the
  exception leaves \<^verbatim>\<open>broadcast_update\<close> (and ends the cleanup task that called it). The
  method collects the closed clients in a second set so as not to change the set it
  iterates, but another task changes it.
\<close>

theorem broadcast_update_disconnect_mid_broadcast:
  "broadcast_update [open_client 1, open_client 2, open_client 3, closed_client 4]
       (PDict [(''type'', PStr ''sessions_cleaned''), (''timestamp'', PStr ''t'')])
       [Some (Disconnects (closed_client 4))] =
     ([open_client 1, open_client 2, open_client 3],
      [(1, Text (PDict [(''type'', PStr ''sessions_cleaned''), (''timestamp'', PStr ''t'')]))],
      Some RuntimeError)"
  by (simp add: broadcast_update_def json_dumps_def ws_send_def open_client_def closed_client_def)

section \<open>Connection Hub: registration without an id\<close>






section \<open>Durability: saving and loading\<close>

lemma typed_sessionD:
  assumes "typed_session obj"
  obtains sid uid st task pr la d where
    "obj ''session_id'' = Some (PStr sid)" "obj ''user_id'' = Some (PStr uid)"
    "obj ''status'' = Some (PStr st)" "obj ''current_task'' = Some (PStr task)"
    "obj ''progress'' = Some (PFloat pr)" "obj ''last_activity'' = Some (PDatetime la)"
    "obj ''resources_used'' = Some (PDict d)" "json_serializable (PDict d)"
  using assms unfolding typed_session_def
  by (auto split: option.splits pyval.splits)

lemma save_session_typed:
  assumes tcol: "\<forall>s. column_text rt (PStr s) = Inr (PStr s)"
    and rcol: "\<forall>x. column_real rt (PFloat x) = Inr (PFloat x)"
    and typed: "typed_session obj"
  shows "save_session rt Working table obj now = Inr (insert_or_replace (stored_row obj now) table)"
proof -
  from typed obtain sid uid st task pr la d where f:
    "obj ''session_id'' = Some (PStr sid)" "obj ''user_id'' = Some (PStr uid)"
    "obj ''status'' = Some (PStr st)" "obj ''current_task'' = Some (PStr task)"
    "obj ''progress'' = Some (PFloat pr)" "obj ''last_activity'' = Some (PDatetime la)"
    "obj ''resources_used'' = Some (PDict d)" "json_serializable (PDict d)"
    by (rule typed_sessionD)
  have dumps: "json_dumps (PDict d) = Inr (PDict d)"
    using f(8) by (simp only: json_dumps_def if_True)
  show ?thesis
    using f(1-7) dumps tcol rcol
    by (simp add: save_session_def bind_exn_def getattr_def datetime_value_def stored_row_def
        field_value_def del: json_serializable.simps)
qed

lemma save_all_typed:
  assumes tcol: "\<forall>s. column_text rt (PStr s) = Inr (PStr s)"
    and rcol: "\<forall>x. column_real rt (PFloat x) = Inr (PFloat x)"
    and typed: "\<forall>obj \<in> set objs. typed_session obj"
  shows "save_all rt Working table objs now =
           Inr (fold (\<lambda>obj. insert_or_replace (stored_row obj now)) objs table)"
  using typed
proof (induction objs arbitrary: table)
  case Nil
  then show ?case by simp
next
  case (Cons obj objs)
  then have "typed_session obj" and rest: "\<forall>obj \<in> set objs. typed_session obj"
    by simp_all
  then show ?case
    using save_session_typed [OF tcol rcol, of obj table now] Cons.IH [OF rest] by simp
qed

lemma save_all_no_module: "save_all rt NoModule table objs now = Inr table"
  by (induction objs) (simp_all add: save_session_def)

lemma stored_row_key:
  assumes "typed_session obj"
  shows "obj ''session_id'' = Some (col_session_id (stored_row obj now))"
    and "col_session_id (stored_row obj now) \<noteq> PNone"
  using assms by (auto elim!: typed_sessionD simp: stored_row_def field_value_def)

lemma stored_row_loaded:
  assumes "typed_session obj"
  shows "session_of_row (stored_row obj now) ''session_id'' = obj ''session_id''"
    and "session_of_row (stored_row obj now) ''status'' = obj ''status''"
    and "session_of_row (stored_row obj now) ''progress'' = obj ''progress''"
  using assms
  by (auto elim!: typed_sessionD simp: session_of_row_def Session_def stored_row_def field_value_def)

lemma session_of_row_key: "session_of_row r ''session_id'' = Some (col_session_id r)"
  by (simp add: session_of_row_def Session_def)

lemma insert_or_replace_keys:
  "col_session_id ` set (insert_or_replace r table) =
     insert (col_session_id r) (col_session_id ` set table)"
  by (auto simp: insert_or_replace_def image_iff)

lemma fold_insert_keys:
  "col_session_id ` set (fold (\<lambda>obj. insert_or_replace (stored_row obj now)) objs table) =
     col_session_id ` set table \<union> (\<lambda>obj. col_session_id (stored_row obj now)) ` set objs"
proof (induction objs arbitrary: table)
  case Nil
  then show ?case by simp
next
  case (Cons obj objs)
  show ?case
    by (auto simp: Cons.IH insert_or_replace_keys)
qed

lemma rows_with_key_other:
  "col_session_id r \<noteq> k \<Longrightarrow>
     filter (\<lambda>x. col_session_id x = k) (insert_or_replace r table) =
     filter (\<lambda>x. col_session_id x = k) table"
  by (auto simp: insert_or_replace_def intro: filter_cong)

lemma rows_with_key_same:
  "col_session_id r \<noteq> PNone \<Longrightarrow>
     filter (\<lambda>x. col_session_id x = col_session_id r) (insert_or_replace r table) = [r]"
  by (auto simp: insert_or_replace_def filter_empty_conv)

lemma rows_with_key_fold:
  assumes "k \<notin> (\<lambda>obj. col_session_id (stored_row obj now)) ` set objs"
  shows "filter (\<lambda>x. col_session_id x = k)
           (fold (\<lambda>obj. insert_or_replace (stored_row obj now)) objs table) =
         filter (\<lambda>x. col_session_id x = k) table"
  using assms
proof (induction objs arbitrary: table)
  case Nil
  then show ?case by simp
next
  case (Cons obj objs)
  then have ne: "col_session_id (stored_row obj now) \<noteq> k"
    and rest: "k \<notin> (\<lambda>obj. col_session_id (stored_row obj now)) ` set objs"
    by auto
  show ?case
    using Cons.IH [OF rest] rows_with_key_other [OF ne] by simp
qed

lemma saved_rows:
  assumes "\<forall>obj \<in> set objs. typed_session obj"
    and "distinct (map (\<lambda>obj. col_session_id (stored_row obj now)) objs)"
    and "obj \<in> set objs"
  shows "filter (\<lambda>x. col_session_id x = col_session_id (stored_row obj now))
           (fold (\<lambda>obj. insert_or_replace (stored_row obj now)) objs table) =
         [stored_row obj now]"
  using assms
proof (induction objs arbitrary: table)
  case Nil
  then show ?case by simp
next
  case (Cons o1 objs)
  from Cons.prems have typed: "typed_session o1" and rest: "\<forall>obj \<in> set objs. typed_session obj"
    and fresh: "col_session_id (stored_row o1 now) \<notin>
                  (\<lambda>obj. col_session_id (stored_row obj now)) ` set objs"
    and dist: "distinct (map (\<lambda>obj. col_session_id (stored_row obj now)) objs)"
    by auto
  show ?case
  proof (cases "obj \<in> set objs")
    case True
    then show ?thesis
      using Cons.IH [OF rest dist True] by simp
  next
    case False
    with Cons.prems(3) have obj: "obj = o1" by simp
    show ?thesis
      using rows_with_key_fold [OF fresh] rows_with_key_same [OF stored_row_key(2) [OF typed]]
      by (simp add: obj)
  qed
qed

text \<open>
  C9, as the code has it. The sessions have distinct ids and fields of the declared
  types that SQLite stores as they are: strings that UTF-8 can encode, a progress that
  is a finite float (\<^verbatim>\<open>NaN\<close> is stored as \<^verbatim>\<open>NULL\<close> and loaded as \<^verbatim>\<open>None\<close>), a datetime,
  and a dict that \<^verbatim>\<open>json.dumps\<close> can spell; the columns give such values back as they
  were bound. Saving them all and loading the table then succeeds; the ids loaded are
  the ids saved together with the ids of the rows the table already had (so exactly the
  ids saved when the table was empty); and every loaded record with a saved id has the
  status and the progress of the saved session.
\<close>

theorem save_all_load_sessions:
  assumes tcol: "\<forall>s. column_text rt (PStr s) = Inr (PStr s)"
    and rcol: "\<forall>x. column_real rt (PFloat x) = Inr (PFloat x)"
    and typed: "\<forall>obj \<in> set objs. typed_session obj"
    and dist: "distinct (map (\<lambda>obj. obj ''session_id'') objs)"
  shows "\<exists>table' loaded.
           save_all rt Working table objs now = Inr table' \<and>
           load_sessions Working table' = Inr loaded \<and>
           (\<lambda>s. s ''session_id'') ` set loaded =
             (\<lambda>obj. obj ''session_id'') ` set objs \<union> (\<lambda>r. Some (col_session_id r)) ` set table \<and>
           (table = [] \<longrightarrow>
              (\<lambda>s. s ''session_id'') ` set loaded = (\<lambda>obj. obj ''session_id'') ` set objs) \<and>
           (\<forall>obj \<in> set objs. \<forall>s \<in> set loaded.
              s ''session_id'' = obj ''session_id'' \<longrightarrow>
                s ''status'' = obj ''status'' \<and> s ''progress'' = obj ''progress'')"
proof -
  let ?key = "\<lambda>obj. col_session_id (stored_row obj now)"
  let ?T = "fold (\<lambda>obj. insert_or_replace (stored_row obj now)) objs table"
  let ?L = "map session_of_row ?T"
  have saved: "save_all rt Working table objs now = Inr ?T"
    by (rule save_all_typed [OF tcol rcol typed])
  have loaded: "load_sessions Working ?T = Inr ?L"
    by (simp add: load_sessions_def)
  have key: "obj ''session_id'' = Some (?key obj)" if "obj \<in> set objs" for obj
    using that typed stored_row_key(1) by blast
  have "distinct (map (\<lambda>obj. Some (?key obj)) objs)"
    using dist key by (simp cong: map_cong)
  then have dkey: "distinct (map ?key objs)"
    by (simp add: distinct_map inj_on_def)
  have "(\<lambda>s. s ''session_id'') ` set ?L = Some ` col_session_id ` set ?T"
    by (simp add: image_image session_of_row_key)
  also have "\<dots> = Some ` (col_session_id ` set table \<union> ?key ` set objs)"
    by (simp only: fold_insert_keys)
  also have "\<dots> = (\<lambda>obj. obj ''session_id'') ` set objs \<union> (\<lambda>r. Some (col_session_id r)) ` set table"
    using key by (auto simp: image_iff)
  finally have ids: "(\<lambda>s. s ''session_id'') ` set ?L =
      (\<lambda>obj. obj ''session_id'') ` set objs \<union> (\<lambda>r. Some (col_session_id r)) ` set table" .
  have same: "s ''status'' = obj ''status'' \<and> s ''progress'' = obj ''progress''"
    if obj: "obj \<in> set objs" and s: "s \<in> set ?L" and eq: "s ''session_id'' = obj ''session_id''"
    for obj s
  proof -
    from s obtain r where r: "r \<in> set ?T" and sr: "s = session_of_row r"
      by auto
    from eq sr key [OF obj] have "col_session_id r = ?key obj"
      by (simp add: session_of_row_key)
    with r have "r \<in> set (filter (\<lambda>x. col_session_id x = ?key obj) ?T)"
      by simp
    then have "r = stored_row obj now"
      using saved_rows [OF typed dkey obj, of table] by simp
    then show ?thesis
      using sr stored_row_loaded(2,3) [of obj now] typed obj by simp
  qed
  show ?thesis
  proof (intro exI [of _ ?T] exI [of _ ?L] conjI ballI impI)
    show "save_all rt Working table objs now = Inr ?T" by (rule saved)
    show "load_sessions Working ?T = Inr ?L" by (rule loaded)
    show "(\<lambda>s. s ''session_id'') ` set ?L =
      (\<lambda>obj. obj ''session_id'') ` set objs \<union> (\<lambda>r. Some (col_session_id r)) ` set table"
      by (rule ids)
    show "(\<lambda>s. s ''session_id'') ` set ?L = (\<lambda>obj. obj ''session_id'') ` set objs"
      if "table = []"
      using ids that by simp
    show "s ''status'' = obj ''status''"
      if "obj \<in> set objs" "s \<in> set ?L" "s ''session_id'' = obj ''session_id''" for obj s
      using same [OF that] by simp
    show "s ''progress'' = obj ''progress''"
      if "obj \<in> set objs" "s \<in> set ?L" "s ''session_id'' = obj ''session_id''" for obj s
      using same [OF that] by simp
  qed
qed

lemma one_session_typed: "typed_session (objects one_session 0)"
  by (simp add: typed_session_def one_session_eq Session_def)

lemma two_sessions_typed:
  "typed_session (objects two_sessions 0)" "typed_session (objects two_sessions (Suc 0))"
  by (simp_all add: typed_session_def two_sessions_eq Session_def)

lemma example_columns:
  "\<forall>s. column_text example_runtime (PStr s) = Inr (PStr s)"
  "\<forall>x. column_real example_runtime (PFloat x) = Inr (PFloat x)"
  by (simp_all add: example_runtime_def)

text \<open>
  The specification's ``loading reproduces the same set of session ids'' fails when the table
  holds a row that the registry no longer has: nothing in the program deletes a row. The
  store holds \<^verbatim>\<open>s1\<close> only; after \<^verbatim>\<open>shutdown\<close> on a table with the row of \<^verbatim>\<open>s0\<close>, loading
  gives \<^verbatim>\<open>s0\<close> and \<^verbatim>\<open>s1\<close>.
\<close>

theorem stale_row_resurrected:
  "map (\<lambda>a. objects one_session a ''session_id'') (get_all_sessions one_session) =
     [Some (PStr ''s1'')] \<and>
   shutdown example_runtime Working [stale_row] one_session 5000 =
     Inr [stale_row, stored_row (objects one_session 0) 5000] \<and>
   load_sessions Working [stale_row, stored_row (objects one_session 0) 5000] =
     Inr [session_of_row stale_row, session_of_row (stored_row (objects one_session 0) 5000)] \<and>
   map (\<lambda>s. s ''session_id'')
     [session_of_row stale_row, session_of_row (stored_row (objects one_session 0) 5000)] =
     [Some (PStr ''s0''), Some (PStr ''s1'')]"
proof -
  have reg: "get_all_sessions one_session = [0]"
    by (simp add: get_all_sessions_def one_session_eq)
  have sid: "objects one_session 0 ''session_id'' = Some (PStr ''s1'')"
    by (simp add: one_session_eq Session_def)
  have key: "col_session_id (stored_row (objects one_session 0) 5000) = PStr ''s1''"
    using sid by (simp add: stored_row_def field_value_def)
  have "save_session example_runtime Working [stale_row] (objects one_session 0) 5000 =
          Inr (insert_or_replace (stored_row (objects one_session 0) 5000) [stale_row])"
    by (rule save_session_typed [OF example_columns one_session_typed])
  then have down: "shutdown example_runtime Working [stale_row] one_session 5000 =
     Inr [stale_row, stored_row (objects one_session 0) 5000]"
    using key by (simp add: shutdown_def reg insert_or_replace_def stale_row_def)
  show ?thesis
    using reg sid down key
    by (simp add: load_sessions_def session_of_row_key) (simp add: stale_row_def)
qed

theorem save_all_load_sessions_witness:
  "typed_session (objects two_sessions 0) \<and> typed_session (objects two_sessions (Suc 0)) \<and>
   distinct (map (\<lambda>obj. obj ''session_id'') [objects two_sessions 0, objects two_sessions (Suc 0)]) \<and>
   save_all example_runtime Working [] [objects two_sessions 0, objects two_sessions (Suc 0)] 5000 =
     Inr [stored_row (objects two_sessions 0) 5000, stored_row (objects two_sessions (Suc 0)) 5000] \<and>
   load_sessions Working
       [stored_row (objects two_sessions 0) 5000, stored_row (objects two_sessions (Suc 0)) 5000] =
     Inr [session_of_row (stored_row (objects two_sessions 0) 5000),
          session_of_row (stored_row (objects two_sessions (Suc 0)) 5000)] \<and>
   (\<lambda>s. s ''session_id'') `
       set [session_of_row (stored_row (objects two_sessions 0) 5000),
            session_of_row (stored_row (objects two_sessions (Suc 0)) 5000)] =
     {Some (PStr ''s1''), Some (PStr ''s2'')} \<and>
   session_of_row (stored_row (objects two_sessions 0) 5000) ''status'' = Some (PStr ''active'') \<and>
   session_of_row (stored_row (objects two_sessions 0) 5000) ''progress'' = Some (PFloat 0)"
proof -
  let ?o0 = "objects two_sessions 0" and ?o1 = "objects two_sessions (Suc 0)"
  let ?T = "[stored_row ?o0 5000, stored_row ?o1 5000]"
  let ?L = "[session_of_row (stored_row ?o0 5000), session_of_row (stored_row ?o1 5000)]"
  have fields: "?o0 ''session_id'' = Some (PStr ''s1'')" "?o1 ''session_id'' = Some (PStr ''s2'')"
    "?o0 ''status'' = Some (PStr ''active'')" "?o0 ''progress'' = Some (PFloat 0)"
    by (simp_all add: two_sessions_eq Session_def)
  have typed: "\<forall>obj \<in> set [?o0, ?o1]. typed_session obj"
    using two_sessions_typed by simp
  have dist: "distinct (map (\<lambda>obj. obj ''session_id'') [?o0, ?o1])"
    using fields by simp
  have keys: "col_session_id (stored_row ?o0 5000) = PStr ''s1''"
    "col_session_id (stored_row ?o1 5000) = PStr ''s2''"
    using fields by (simp_all add: stored_row_def field_value_def)
  from save_all_load_sessions [OF example_columns typed dist, of "[]" 5000]
  obtain table' loaded where
    saved: "save_all example_runtime Working [] [?o0, ?o1] 5000 = Inr table'"
    and loaded: "load_sessions Working table' = Inr loaded"
    and ids: "([] :: row list) = [] \<longrightarrow>
       (\<lambda>s. s ''session_id'') ` set loaded = (\<lambda>obj. obj ''session_id'') ` set [?o0, ?o1]"
    and same: "\<forall>obj \<in> set [?o0, ?o1]. \<forall>s \<in> set loaded.
              s ''session_id'' = obj ''session_id'' \<longrightarrow>
                s ''status'' = obj ''status'' \<and> s ''progress'' = obj ''progress''"
    by (elim exE conjE)
  have "save_all example_runtime Working [] [?o0, ?o1] 5000 =
          Inr (fold (\<lambda>obj. insert_or_replace (stored_row obj 5000)) [?o0, ?o1] [])"
    by (rule save_all_typed [OF example_columns typed])
  then have "save_all example_runtime Working [] [?o0, ?o1] 5000 = Inr ?T"
    using keys by (simp add: insert_or_replace_def)
  with saved have T: "table' = ?T"
    by simp
  with loaded have L: "loaded = ?L"
    by (simp add: load_sessions_def)
  from ids have "(\<lambda>s. s ''session_id'') ` set ?L = {Some (PStr ''s1''), Some (PStr ''s2'')}"
    using fields unfolding L by simp
  moreover from same have "session_of_row (stored_row ?o0 5000) ''status'' = ?o0 ''status'' \<and>
      session_of_row (stored_row ?o0 5000) ''progress'' = ?o0 ''progress''"
    unfolding L by (simp add: session_of_row_key keys fields)
  ultimately show ?thesis
    using two_sessions_typed dist saved loaded fields unfolding T L by simp
qed

section \<open>Durability: failures\<close>

text \<open>
  C8, as the code has it. Only \<^verbatim>\<open>ImportError\<close> is caught: without the module
  \<^verbatim>\<open>sqlite3\<close>, \<^verbatim>\<open>save_session\<close> and \<^verbatim>\<open>shutdown\<close> return with the table as it was and
  \<^verbatim>\<open>load_sessions\<close> returns no session; when the storage fails,
  \<^verbatim>\<open>sqlite3.OperationalError\<close> leaves \<^verbatim>\<open>save_session\<close> and \<^verbatim>\<open>load_sessions\<close>. Neither
  method has the session manager in its reach.
\<close>

theorem durability_failures:
  "save_session rt NoModule table obj now = Inr table \<and>
   load_sessions NoModule table = Inr [] \<and>
   shutdown rt NoModule table sm now = Inr table \<and>
   save_session rt Failing table obj now = Inl OperationalError \<and>
   load_sessions Failing table = Inl OperationalError"
  by (simp add: save_session_def load_sessions_def shutdown_def save_all_no_module)

theorem durability_failures_witness:
  "save_session example_runtime NoModule [stale_row] (objects one_session 0) 5000 = Inr [stale_row] \<and>
   load_sessions NoModule [stale_row] = Inr [] \<and>
   shutdown example_runtime NoModule [stale_row] one_session 5000 = Inr [stale_row]"
  using durability_failures [of example_runtime "[stale_row]" "objects one_session 0" 5000 one_session]
  by simp

text \<open>
  The specification's ``never raise an exception'' fails when the storage is unavailable: the
  exception leaves \<^verbatim>\<open>save_session\<close>, ends the loop of \<^verbatim>\<open>shutdown\<close>, and leaves
  \<^verbatim>\<open>load_sessions\<close> at start-up.
\<close>

theorem storage_failure_raises:
  "save_session example_runtime Failing [] (objects one_session 0) 5000 = Inl OperationalError \<and>
   shutdown example_runtime Failing [] one_session 5000 = Inl OperationalError \<and>
   load_sessions Failing [] = Inl OperationalError"
  by (simp add: save_session_def load_sessions_def shutdown_def get_all_sessions_def
      one_session_eq)

section \<open>What the restrictions on keywords leave out\<close>

text \<open>
  The three descriptor names are attributes for \<^verbatim>\<open>hasattr\<close>, so the loop of
  \<^verbatim>\<open>update_session\<close> assigns them. \<^verbatim>\<open>__class__\<close> raises after the earlier keywords
  were applied and before \<^verbatim>\<open>last_activity\<close> is refreshed; \<^verbatim>\<open>__dict__\<close> with a dict
  replaces every field of the record, \<^verbatim>\<open>session_id\<close> included; and a record left with a
  \<^verbatim>\<open>last_activity\<close> that is no datetime makes the next sweep raise.
\<close>

lemma update_session_descriptor_raises:
  "update_session one_session (PStr ''s1'')
     [(''status'', PStr ''idle''), (''__class__'', PInt 1)] 2000 =
     (one_session\<lparr>objects := (objects one_session)
        (0 := (objects one_session 0)(''status'' \<mapsto> PStr ''idle''))\<rparr>,
      Inl TypeError)"
  by (simp add: update_session_def one_session_eq Session_def hasattr_def setattr_def
      class_attributes_def)

lemma update_session_dict_replaces:
  "snd (update_session one_session (PStr ''s1'')
          [(''__dict__'', PDict [(''session_id'', PStr ''other'')])] 2000) = Inr True \<and>
   objects (fst (update_session one_session (PStr ''s1'')
          [(''__dict__'', PDict [(''session_id'', PStr ''other'')])] 2000)) 0 ''session_id'' =
     Some (PStr ''other'') \<and>
   objects (fst (update_session one_session (PStr ''s1'')
          [(''__dict__'', PDict [(''session_id'', PStr ''other'')])] 2000)) 0 ''user_id'' = None"
  by (simp add: update_session_def one_session_eq Session_def hasattr_def setattr_def
      class_attributes_def)

lemma cleanup_after_failed_update:
  "cleanup_inactive_sessions rt unstamped_session 1860001000 30 =
     (unstamped_session, Inl TypeError)"
  by (simp add: cleanup_inactive_sessions_def unstamped_session_eq one_session_eq
      time_diff_def getattr_def)

section \<open>The registry keeps its keys distinct\<close>

lemma distinct_keys_new: "distinct (map fst (active_sessions new_manager))"
  by (simp add: new_manager_def)

lemma distinct_keys_register:
  assumes "distinct (map fst (active_sessions sm))"
  shows "distinct (map fst (active_sessions (fst (register_session sm session_id user_id now))))"
proof (cases "hashable_key session_id")
  case None
  then show ?thesis using assms by (simp add: register_session_def)
next
  case (Some k)
  show ?thesis
  proof (cases "map_of (active_sessions sm) k")
    case None
    then have "k \<notin> set (map fst (active_sessions sm))"
      by (simp add: map_of_eq_None_iff)
    then show ?thesis
      using assms Some None by (simp add: register_session_def)
  next
    case (Some a)
    then show ?thesis
      using assms \<open>hashable_key session_id = Some k\<close> by (simp add: register_session_def)
  qed
qed

lemma distinct_keys_cleanup:
  assumes "distinct (map fst (active_sessions sm))"
  shows "distinct (map fst (active_sessions (fst (cleanup_inactive_sessions rt sm now timeout_minutes))))"
  using assms
  by (simp add: cleanup_inactive_sessions_def fold_dict_del distinct_map_filter split: sum.splits)

lemma distinct_keys_store_calls:
  "distinct (map fst (active_sessions sm)) \<Longrightarrow>
     distinct (map fst (active_sessions (store_calls rt sm calls)))"
proof (induction calls arbitrary: sm)
  case Nil
  then show ?case by simp
next
  case (Cons c calls)
  have "distinct (map fst (active_sessions (store_call rt sm c)))"
    using Cons.prems
    by (cases c) (simp_all add: distinct_keys_register update_session_registry distinct_keys_cleanup)
  then show ?case
    using Cons.IH by simp
qed

end
